theory Spec2Isabelle
  imports Complex_Main "HOL-Library.Char_ord" "HOL-Library.List_Lexorder"
begin

section \<open>The configuration\<close>

text \<open>
  The configuration is the JSON document read by \<open>load_config\<close>. A JSON object with a
  fixed set of keys is a record; a JSON object used as a dictionary (professeurs, salles,
  matieres, curriculum, matieres_obligatoires) is an association list in the order of the
  file, which is the iteration order of the Python dict. Looking a key up is \<open>map_of\<close>;
  a missing key is the \<open>KeyError\<close> of the source.
\<close>

datatype error = KeyError | ZeroDivisionError

record groupe_info =
  nom :: string
  niveau :: string

record curriculum_info =
  matieres_obligatoires :: "(string \<times> int) list"

record contraintes_info =
  jours_indisponibles :: "string list"
  heures_indisponibles :: "string list"

record prof_info =
  matieres_enseignees :: "string list"
  contraintes :: contraintes_info

record salle_info =
  type_salle :: string
  capacite :: "nat option"
  equipements :: "string list"

record matiere_info =
  salle_requise :: string

record planning_info =
  jours :: "string list"
  heures :: "string list"

record config =
  groupes_eleves :: "groupe_info list"
  curriculum :: "(string \<times> curriculum_info) list"
  professeurs :: "(string \<times> prof_info) list"
  salles :: "(string \<times> salle_info) list"
  matieres :: "(string \<times> matiere_info) list"
  planning :: planning_info

text \<open>A course to plan is the tuple \<open>(groupe_nom, matiere, cours_id)\<close> of the source.\<close>

type_synonym cours = "string \<times> string \<times> nat"

section \<open>generate_cours_from_config\<close>

text \<open>
  The two accumulators of the source, \<open>cours_a_planifier\<close> and \<open>cours_id\<close>, are passed
  as a pair through the three nested loops. \<open>range(nb_cours)\<close> is empty for a negative
  \<open>nb_cours\<close>, hence \<open>nat nb_cours\<close> iterations.
\<close>

definition append_cours :: "string \<Rightarrow> string \<Rightarrow> cours list \<times> nat \<Rightarrow> cours list \<times> nat" where
  "append_cours groupe_nom matiere st =
     (case st of (cours_a_planifier, cours_id) \<Rightarrow>
        (cours_a_planifier @ [(groupe_nom, matiere, cours_id)], cours_id + 1))"

definition loop_range :: "string \<Rightarrow> string \<Rightarrow> int \<Rightarrow> cours list \<times> nat \<Rightarrow> cours list \<times> nat" where
  "loop_range groupe_nom matiere nb_cours st =
     ((append_cours groupe_nom matiere) ^^ (nat nb_cours)) st"

definition loop_matieres ::
  "string \<Rightarrow> (string \<times> int) list \<Rightarrow> cours list \<times> nat \<Rightarrow> cours list \<times> nat" where
  "loop_matieres groupe_nom mo st =
     foldl (\<lambda>s (matiere, nb_cours). loop_range groupe_nom matiere nb_cours s) st mo"

definition loop_groupe ::
  "config \<Rightarrow> cours list \<times> nat \<Rightarrow> groupe_info \<Rightarrow> cours list \<times> nat" where
  "loop_groupe cfg st groupe_info =
     (case map_of (curriculum cfg) (niveau groupe_info) of
        None \<Rightarrow> st
      | Some cur \<Rightarrow> loop_matieres (nom groupe_info) (matieres_obligatoires cur) st)"

definition generate_cours_from_config :: "config \<Rightarrow> cours list" where
  "generate_cours_from_config cfg =
     fst (foldl (loop_groupe cfg) ([], 0) (groupes_eleves cfg))"

text \<open>
  The order the specification describes, written out directly: the groups in the order of
  the configuration, for each group the subjects of its level in the order of the
  curriculum, for each subject its occurrences; the identifiers number that list.
\<close>

definition cours_du_groupe :: "config \<Rightarrow> groupe_info \<Rightarrow> (string \<times> string) list" where
  "cours_du_groupe cfg g =
     (case map_of (curriculum cfg) (niveau g) of
        None \<Rightarrow> []
      | Some cur \<Rightarrow>
          concat (map (\<lambda>(matiere, nb_cours). replicate (nat nb_cours) (nom g, matiere))
                      (matieres_obligatoires cur)))"

definition numeroter :: "nat \<Rightarrow> (string \<times> string) list \<Rightarrow> cours list" where
  "numeroter n xs = map (\<lambda>(i, (g, m)). (g, m, i)) (enumerate n xs)"

definition expansion_ordonnee :: "config \<Rightarrow> cours list" where
  "expansion_ordonnee cfg =
     numeroter 0 (concat (map (cours_du_groupe cfg) (groupes_eleves cfg)))"

section \<open>create_schedule_from_config: the decision variables\<close>

text \<open>
  A key of the dictionary \<open>assignments\<close> is the tuple
  \<open>(groupe, matiere, cours_id, prof, salle, jour, heure)\<close>; one boolean variable is
  created for each key the four tests let through.
\<close>

type_synonym key = "string \<times> string \<times> nat \<times> string \<times> string \<times> string \<times> string"

text \<open>
  A loop whose body may raise: the elements produced before the exception stay produced
  (the variables were created), and the exception ends the loop.
\<close>

fun collect :: "('a \<Rightarrow> 'b list \<times> error option) \<Rightarrow> 'a list \<Rightarrow> 'b list \<times> error option" where
  "collect f [] = ([], None)"
| "collect f (x # xs) =
     (case f x of
        (ys, Some e) \<Rightarrow> (ys, Some e)
      | (ys, None) \<Rightarrow> (case collect f xs of (zs, r) \<Rightarrow> (ys @ zs, r)))"

definition variables_jours ::
  "config \<Rightarrow> prof_info \<Rightarrow> cours \<Rightarrow> string \<Rightarrow> string \<Rightarrow> key list" where
  "variables_jours cfg prof_info c prof salle =
     (case c of (groupe, matiere, cours_id) \<Rightarrow>
        [(groupe, matiere, cours_id, prof, salle, jour, heure).
           jour \<leftarrow> jours (planning cfg),
           jour \<notin> set (jours_indisponibles (contraintes prof_info)),
           heure \<leftarrow> heures (planning cfg),
           heure \<notin> set (heures_indisponibles (contraintes prof_info))])"

definition variables_salle ::
  "config \<Rightarrow> prof_info \<Rightarrow> cours \<Rightarrow> string \<Rightarrow> string \<Rightarrow> key list \<times> error option" where
  "variables_salle cfg prof_info c prof salle =
     (case c of (groupe, matiere, cours_id) \<Rightarrow>
        (case map_of (matieres cfg) matiere of
           None \<Rightarrow> ([], Some KeyError)
         | Some infos_matiere \<Rightarrow>
             (case map_of (salles cfg) salle of
                None \<Rightarrow> ([], Some KeyError)
              | Some salle_info \<Rightarrow>
                  if type_salle salle_info \<noteq> salle_requise infos_matiere then ([], None)
                  else (variables_jours cfg prof_info c prof salle, None))))"

definition variables_prof :: "config \<Rightarrow> cours \<Rightarrow> string \<Rightarrow> key list \<times> error option" where
  "variables_prof cfg c prof =
     (case c of (groupe, matiere, cours_id) \<Rightarrow>
        (case map_of (professeurs cfg) prof of
           None \<Rightarrow> ([], Some KeyError)
         | Some prof_info \<Rightarrow>
             if matiere \<notin> set (matieres_enseignees prof_info) then ([], None)
             else collect (variables_salle cfg prof_info c prof) (map fst (salles cfg))))"

definition variables_cours :: "config \<Rightarrow> cours \<Rightarrow> key list \<times> error option" where
  "variables_cours cfg c = collect (variables_prof cfg c) (map fst (professeurs cfg))"

definition create_variables :: "config \<Rightarrow> cours list \<Rightarrow> key list \<times> error option" where
  "create_variables cfg cours_a_planifier = collect (variables_cours cfg) cours_a_planifier"

text \<open>
  The four eligibility rules, checked again on a tuple, independently of the loops above.
\<close>

definition regles_eligibilite :: "config \<Rightarrow> key \<Rightarrow> bool" where
  "regles_eligibilite cfg k =
     (case k of (groupe, matiere, cours_id, prof, salle, jour, heure) \<Rightarrow>
        (case (map_of (professeurs cfg) prof, map_of (salles cfg) salle,
               map_of (matieres cfg) matiere) of
           (Some prof_info, Some salle_info, Some infos_matiere) \<Rightarrow>
             matiere \<in> set (matieres_enseignees prof_info) \<and>
             type_salle salle_info = salle_requise infos_matiere \<and>
             jour \<notin> set (jours_indisponibles (contraintes prof_info)) \<and>
             heure \<notin> set (heures_indisponibles (contraintes prof_info))
         | _ \<Rightarrow> False))"

section \<open>validate_config\<close>

datatype config_error =
    Matiere_inexistante string string
  | Aucun_professeur string string
  | Salle_indisponible string string

definition validate_config :: "config \<Rightarrow> config_error list" where
  "validate_config cfg =
     (let matieres_existantes = set (map fst (matieres cfg));
          errors1 =
            [Matiere_inexistante prof_nom matiere.
               (prof_nom, prof_info) \<leftarrow> professeurs cfg,
               matiere \<leftarrow> matieres_enseignees prof_info,
               matiere \<notin> matieres_existantes];
          errors2 =
            [Aucun_professeur matiere niv.
               (niv, cur) \<leftarrow> curriculum cfg,
               matiere \<leftarrow> map fst (matieres_obligatoires cur),
               [p. (p, pinfo) \<leftarrow> professeurs cfg,
                   matiere \<in> set (matieres_enseignees pinfo)] = []];
          types_salles_disponibles = set (map (\<lambda>(salle, salle_info). type_salle salle_info)
                                             (salles cfg));
          errors3 =
            [Salle_indisponible matiere (salle_requise matiere_info).
               (matiere, matiere_info) \<leftarrow> matieres cfg,
               salle_requise matiere_info \<notin> types_salles_disponibles]
      in errors1 @ errors2 @ errors3)"

section \<open>create_schedule_from_config: the constraints\<close>

text \<open>
  \<open>assignments\<close> is a dictionary: writing a key a second time keeps its first position.
  The variable of a key is identified with the key.
\<close>

definition dict_keys :: "'a list \<Rightarrow> 'a list" where
  "dict_keys xs = rev (remdups (rev xs))"

datatype constraint = ExactlyOne "key list" | AtMostOne "key list"

record cp_model =
  variables :: "key list"
  constraints :: "constraint list"

definition contrainte_cours :: "key list \<Rightarrow> cours \<Rightarrow> constraint list" where
  "contrainte_cours assignments c =
     (case c of (groupe, matiere, cours_id) \<Rightarrow>
        (let cours_vars = [key \<leftarrow> assignments.
                             (case key of (g, m, cid, p, s, j, h) \<Rightarrow> cid = cours_id)]
         in if cours_vars \<noteq> [] then [ExactlyOne cours_vars] else []))"

definition contrainte_prof :: "key list \<Rightarrow> string \<Rightarrow> string \<Rightarrow> string \<Rightarrow> constraint list" where
  "contrainte_prof assignments prof jour heure =
     (let prof_vars = [key \<leftarrow> assignments.
                         (case key of (g, m, cid, p, s, j, h) \<Rightarrow>
                            p = prof \<and> j = jour \<and> h = heure)]
      in if prof_vars \<noteq> [] then [AtMostOne prof_vars] else [])"

definition contrainte_salle :: "key list \<Rightarrow> string \<Rightarrow> string \<Rightarrow> string \<Rightarrow> constraint list" where
  "contrainte_salle assignments salle jour heure =
     (let salle_vars = [key \<leftarrow> assignments.
                          (case key of (g, m, cid, p, s, j, h) \<Rightarrow>
                             s = salle \<and> j = jour \<and> h = heure)]
      in if salle_vars \<noteq> [] then [AtMostOne salle_vars] else [])"

definition contrainte_groupe :: "key list \<Rightarrow> string \<Rightarrow> string \<Rightarrow> string \<Rightarrow> constraint list" where
  "contrainte_groupe assignments groupe jour heure =
     (let groupe_vars = [key \<leftarrow> assignments.
                           (case key of (g, m, cid, p, s, j, h) \<Rightarrow>
                              g = groupe \<and> j = jour \<and> h = heure)]
      in if groupe_vars \<noteq> [] then [AtMostOne groupe_vars] else [])"

definition par_creneau ::
  "config \<Rightarrow> (string \<Rightarrow> string \<Rightarrow> string \<Rightarrow> constraint list) \<Rightarrow> string list \<Rightarrow> constraint list"
  where
  "par_creneau cfg f ressources =
     concat [f r jour heure.
               r \<leftarrow> ressources, jour \<leftarrow> jours (planning cfg), heure \<leftarrow> heures (planning cfg)]"

definition build_model :: "config \<Rightarrow> cours list \<Rightarrow> key list \<Rightarrow> cp_model" where
  "build_model cfg cours_a_planifier assignments =
     \<lparr>variables = assignments,
      constraints =
        concat (map (contrainte_cours assignments) cours_a_planifier) @
        par_creneau cfg (contrainte_prof assignments) (map fst (professeurs cfg)) @
        par_creneau cfg (contrainte_salle assignments) (map fst (salles cfg)) @
        par_creneau cfg (contrainte_groupe assignments) (map nom (groupes_eleves cfg))\<rparr>"

section \<open>create_schedule_from_config: solving, decoding, diagnostics\<close>

text \<open>
  The solver is outside the program: it is a parameter, a function from the model to a
  status and a value for every variable. Its time limit and logging flag do not appear.
\<close>

datatype status = UNKNOWN | MODEL_INVALID | FEASIBLE | INFEASIBLE | OPTIMAL

type_synonym solver = "cp_model \<Rightarrow> status \<times> (key \<Rightarrow> bool)"

text \<open>
  An entry of the solution is the tuple \<open>(jour, heure, matiere, prof, salle)\<close>; the
  solution is a \<open>defaultdict(list)\<close> from the group to its entries, kept in insertion
  order.
\<close>

type_synonym entry = "string \<times> string \<times> string \<times> string \<times> string"
type_synonym solution = "(string \<times> entry list) list"

fun dd_append :: "'k \<Rightarrow> 'v \<Rightarrow> ('k \<times> 'v list) list \<Rightarrow> ('k \<times> 'v list) list" where
  "dd_append k v [] = [(k, [v])]"
| "dd_append k v ((k', vs) # rest) =
     (if k = k' then (k', vs @ [v]) # rest else (k', vs) # dd_append k v rest)"

definition decode :: "(key \<Rightarrow> bool) \<Rightarrow> key list \<Rightarrow> solution" where
  "decode val assignments =
     foldl (\<lambda>sol key.
              (case key of (groupe, matiere, cours_id, prof, salle, jour, heure) \<Rightarrow>
                 if val key then dd_append groupe (jour, heure, matiere, prof, salle) sol
                 else sol))
           [] assignments"

definition lookup :: "('k \<times> 'v) list \<Rightarrow> 'k \<Rightarrow> error + 'v" where
  "lookup d k = (case map_of d k of None \<Rightarrow> Inl KeyError | Some v \<Rightarrow> Inr v)"

fun filter_err :: "('a \<Rightarrow> error + bool) \<Rightarrow> 'a list \<Rightarrow> error + 'a list" where
  "filter_err p [] = Inr []"
| "filter_err p (x # xs) =
     (case p x of
        Inl e \<Rightarrow> Inl e
      | Inr b \<Rightarrow>
          (case filter_err p xs of
             Inl e \<Rightarrow> Inl e
           | Inr ys \<Rightarrow> Inr (if b then x # ys else ys)))"

fun map_err :: "('a \<Rightarrow> error + 'b) \<Rightarrow> 'a list \<Rightarrow> error + 'b list" where
  "map_err f [] = Inr []"
| "map_err f (x # xs) =
     (case f x of
        Inl e \<Rightarrow> Inl e
      | Inr y \<Rightarrow> (case map_err f xs of Inl e \<Rightarrow> Inl e | Inr ys \<Rightarrow> Inr (y # ys)))"

text \<open>
  A line of the analysis printed when no solution is found:
  \<open>(matiere, cours_matiere, len(profs_competents), len(salles_compatibles))\<close>.
\<close>

type_synonym diagnostic = "string \<times> nat \<times> nat \<times> nat"

definition diagnostic_matiere :: "config \<Rightarrow> cours list \<Rightarrow> string \<Rightarrow> error + diagnostic" where
  "diagnostic_matiere cfg cours_a_planifier matiere =
     (case filter_err
             (\<lambda>p. case lookup (professeurs cfg) p of
                     Inl e \<Rightarrow> Inl e
                   | Inr prof_info \<Rightarrow> Inr (matiere \<in> set (matieres_enseignees prof_info)))
             (map fst (professeurs cfg)) of
        Inl e \<Rightarrow> Inl e
      | Inr profs_competents \<Rightarrow>
          (let cours_matiere =
                 length [c \<leftarrow> cours_a_planifier. (case c of (g, m, cid) \<Rightarrow> m = matiere)]
           in case filter_err
                     (\<lambda>s. case lookup (salles cfg) s of
                             Inl e \<Rightarrow> Inl e
                           | Inr salle_info \<Rightarrow>
                               (case lookup (matieres cfg) matiere of
                                  Inl e \<Rightarrow> Inl e
                                | Inr infos_matiere \<Rightarrow>
                                    Inr (type_salle salle_info = salle_requise infos_matiere)))
                     (map fst (salles cfg)) of
                Inl e \<Rightarrow> Inl e
              | Inr salles_compatibles \<Rightarrow>
                  Inr (matiere, cours_matiere, length profs_competents,
                       length salles_compatibles)))"

text \<open>
  The three counts as the specification words them: the occurrences of the subject in the
  course list, the teachers competent in it, the rooms of the type it requires.
\<close>

definition prof_competent :: "config \<Rightarrow> string \<Rightarrow> string \<Rightarrow> bool" where
  "prof_competent cfg matiere p =
     (case map_of (professeurs cfg) p of
        None \<Rightarrow> False
      | Some prof_info \<Rightarrow> matiere \<in> set (matieres_enseignees prof_info))"

definition salle_compatible :: "config \<Rightarrow> string \<Rightarrow> string \<Rightarrow> bool" where
  "salle_compatible cfg matiere s =
     (case (map_of (salles cfg) s, map_of (matieres cfg) matiere) of
        (Some salle_info, Some infos_matiere) \<Rightarrow>
          type_salle salle_info = salle_requise infos_matiere
      | _ \<Rightarrow> False)"

definition comptes_matiere :: "config \<Rightarrow> cours list \<Rightarrow> string \<Rightarrow> diagnostic" where
  "comptes_matiere cfg cours_a_planifier matiere =
     (matiere,
      length [c \<leftarrow> cours_a_planifier. fst (snd c) = matiere],
      length [p \<leftarrow> map fst (professeurs cfg). prof_competent cfg matiere p],
      length [s \<leftarrow> map fst (salles cfg). salle_compatible cfg matiere s])"

section \<open>afficher_salles_libres\<close>

text \<open>
  A time slot is the pair \<open>(jour, heure)\<close>. \<open>salles_occupees\<close> is a
  \<open>defaultdict(set)\<close> from the slot to the rooms used in it: an association list in
  insertion order, each value a list without repetition (of a Python set only the
  members, their number and \<open>sorted\<close> are used). The same dictionary is built by
  \<open>export_salles_libres_to_json\<close>.
\<close>

type_synonym creneau = "string \<times> string"

definition set_add :: "'a \<Rightarrow> 'a list \<Rightarrow> 'a list" where
  "set_add x xs = (if x \<in> set xs then xs else xs @ [x])"

fun dd_add :: "'k \<Rightarrow> 'v \<Rightarrow> ('k \<times> 'v list) list \<Rightarrow> ('k \<times> 'v list) list" where
  "dd_add k v [] = [(k, [v])]"
| "dd_add k v ((k', vs) # rest) =
     (if k = k' then (k', set_add v vs) # rest else (k', vs) # dd_add k v rest)"

definition entrees :: "solution \<Rightarrow> (string \<times> entry) list" where
  "entrees solution =
     concat (map (\<lambda>(groupe, cours_list). map (Pair groupe) cours_list) solution)"

definition salles_occupees :: "solution \<Rightarrow> (creneau \<times> string list) list" where
  "salles_occupees solution =
     foldl (\<lambda>d ge. (case ge of (groupe, jour, heure, matiere, prof, salle) \<Rightarrow>
                       dd_add (jour, heure) salle d))
           [] (entrees solution)"

definition get_occupees :: "(creneau \<times> string list) list \<Rightarrow> creneau \<Rightarrow> string list" where
  "get_occupees so c = (case map_of so c of None \<Rightarrow> [] | Some occ \<Rightarrow> occ)"

text \<open>
  The body of the loop over the slots of the grid: the occupied rooms of the slot, the
  free rooms \<open>set(salles.keys()) - salles_occupees_creneau\<close>, and the lookup
  \<open>salles[salle]\<close> made for every occupied room, which raises for a room that is not
  in the configuration. Both sets are returned sorted; the text of the lines is left out.
\<close>

definition salles_creneau ::
  "config \<Rightarrow> (creneau \<times> string list) list \<Rightarrow> creneau \<Rightarrow> error + (string list \<times> string list)"
  where
  "salles_creneau cfg so c =
     (let salles_occupees_creneau = get_occupees so c;
          salles_libres = [s \<leftarrow> remdups (map fst (salles cfg)).
                             s \<notin> set salles_occupees_creneau]
      in case map_err (lookup (salles cfg)) (sort salles_occupees_creneau) of
           Inl e \<Rightarrow> Inl e
         | Inr infos \<Rightarrow> Inr (sort salles_occupees_creneau, sort salles_libres))"

definition grille :: "config \<Rightarrow> creneau list" where
  "grille cfg = [(jour, heure). jour \<leftarrow> jours (planning cfg), heure \<leftarrow> heures (planning cfg)]"

text \<open>The statistics. \<open>occupation_par_salle\<close> is a \<open>defaultdict(int)\<close>.\<close>

definition occupation_par_salle :: "(creneau \<times> string list) list \<Rightarrow> string \<Rightarrow> nat" where
  "occupation_par_salle so =
     foldl (\<lambda>f (c, salles_occ). foldl (\<lambda>f salle. f(salle := f salle + 1)) f salles_occ)
           (\<lambda>salle. 0) so"

text \<open>
  The rates are Python floats, \<open>(n / total) * 100\<close>; here they are computed in the
  reals. Dividing by zero raises.
\<close>

definition taux :: "nat \<Rightarrow> nat \<Rightarrow> error + real" where
  "taux n d =
     (if d = 0 then Inl ZeroDivisionError else Inr (real n / real d * 100))"

definition total_creneaux :: "config \<Rightarrow> nat" where
  "total_creneaux cfg = length (jours (planning cfg)) * length (heures (planning cfg))"

definition total_salles :: "config \<Rightarrow> nat" where
  "total_salles cfg = length (salles cfg)"

definition taux_salle ::
  "config \<Rightarrow> (creneau \<times> string list) list \<Rightarrow> string \<Rightarrow> error + (string \<times> nat \<times> real)" where
  "taux_salle cfg so salle =
     (let nb_occupations = occupation_par_salle so salle
      in case taux nb_occupations (total_creneaux cfg) of
           Inl e \<Rightarrow> Inl e
         | Inr t \<Rightarrow> Inr (salle, nb_occupations, t))"

definition total_occupations :: "(creneau \<times> string list) list \<Rightarrow> nat" where
  "total_occupations so = sum_list (map (\<lambda>(c, salles_occ). length salles_occ) so)"

definition taux_global :: "config \<Rightarrow> (creneau \<times> string list) list \<Rightarrow> error + real" where
  "taux_global cfg so = taux (total_occupations so) (total_creneaux cfg * total_salles cfg)"

text \<open>
  Python's \<open>max\<close> and \<open>min\<close> with a key go through the items in order and replace the
  element kept only by a strictly greater (strictly smaller) one.
\<close>

fun py_max :: "('a \<Rightarrow> nat) \<Rightarrow> 'a \<Rightarrow> 'a list \<Rightarrow> 'a" where
  "py_max f best [] = best"
| "py_max f best (x # xs) = py_max f (if f best < f x then x else best) xs"

fun py_min :: "('a \<Rightarrow> nat) \<Rightarrow> 'a \<Rightarrow> 'a list \<Rightarrow> 'a" where
  "py_min f best [] = best"
| "py_min f best (x # xs) = py_min f (if f x < f best then x else best) xs"

definition occupation_par_creneau :: "(creneau \<times> string list) list \<Rightarrow> (creneau \<times> nat) list" where
  "occupation_par_creneau so = map (\<lambda>(c, salles_occ). (c, length salles_occ)) so"

definition creneau_max :: "(creneau \<times> nat) list \<Rightarrow> (creneau \<times> nat) option" where
  "creneau_max opc = (case opc of [] \<Rightarrow> None | x # xs \<Rightarrow> Some (py_max snd x xs))"

definition creneau_min :: "(creneau \<times> nat) list \<Rightarrow> (creneau \<times> nat) option" where
  "creneau_min opc = (case opc of [] \<Rightarrow> None | x # xs \<Rightarrow> Some (py_min snd x xs))"

record rapport =
  par_creneau_r :: "(creneau \<times> string list \<times> string list) list"
  par_salle_r :: "(string \<times> nat \<times> real) list"
  total_occupations_r :: nat
  taux_global_r :: real
  plus_charge :: "(creneau \<times> nat) option"
  moins_charge :: "(creneau \<times> nat) option"

definition afficher_salles_libres :: "solution \<Rightarrow> config \<Rightarrow> error + rapport" where
  "afficher_salles_libres solution cfg =
     (let so = salles_occupees solution
      in case map_err (\<lambda>c. case salles_creneau cfg so c of
                              Inl e \<Rightarrow> Inl e
                            | Inr (occ, libres) \<Rightarrow> Inr (c, occ, libres))
                      (grille cfg) of
           Inl e \<Rightarrow> Inl e
         | Inr cs \<Rightarrow>
             (case map_err (taux_salle cfg so) (sort (map fst (salles cfg))) of
                Inl e \<Rightarrow> Inl e
              | Inr ts \<Rightarrow>
                  (case taux_global cfg so of
                     Inl e \<Rightarrow> Inl e
                   | Inr tg \<Rightarrow>
                       Inr \<lparr>par_creneau_r = cs, par_salle_r = ts,
                            total_occupations_r = total_occupations so,
                            taux_global_r = tg,
                            plus_charge = creneau_max (occupation_par_creneau so),
                            moins_charge = creneau_min (occupation_par_creneau so)\<rparr>)))"

section \<open>verifier_solution\<close>

text \<open>
  The lines \<open>ERREUR\<close> the function prints, with the values each one is formatted from.
  The dictionaries of the caller (\<open>professeurs\<close>, \<open>salles\<close>, \<open>infos_matieres\<close>) are
  read from the configuration they are built from.
\<close>

datatype violation =
    Erreur_competence string string
  | Erreur_salle string string string
  | Erreur_nombre nat nat
  | Erreur_conflit string string nat creneau

record etat_verif =
  cours_assignes :: nat
  conflits_prof :: "(string \<times> creneau list) list"
  conflits_salle :: "(string \<times> creneau list) list"
  conflits_groupe :: "(string \<times> creneau list) list"
  is_valid :: bool
  sortie :: "violation list"

definition signaler :: "violation \<Rightarrow> etat_verif \<Rightarrow> etat_verif" where
  "signaler v st = st\<lparr>is_valid := False, sortie := sortie st @ [v]\<rparr>"

definition verifier_entree :: "config \<Rightarrow> etat_verif \<Rightarrow> string \<times> entry \<Rightarrow> error + etat_verif" where
  "verifier_entree cfg st ge =
     (case ge of (groupe, jour, heure, matiere, prof, salle) \<Rightarrow>
        (let timeslot = (jour, heure);
             st1 = st\<lparr>cours_assignes := cours_assignes st + 1,
                      conflits_prof := dd_append prof timeslot (conflits_prof st),
                      conflits_salle := dd_append salle timeslot (conflits_salle st),
                      conflits_groupe := dd_append groupe timeslot (conflits_groupe st)\<rparr>
         in case lookup (professeurs cfg) prof of
              Inl e \<Rightarrow> Inl e
            | Inr prof_info \<Rightarrow>
                (let st2 = (if matiere \<notin> set (matieres_enseignees prof_info)
                            then signaler (Erreur_competence prof matiere) st1 else st1)
                 in case lookup (matieres cfg) matiere of
                      Inl e \<Rightarrow> Inl e
                    | Inr infos_matiere \<Rightarrow>
                        (case lookup (salles cfg) salle of
                           Inl e \<Rightarrow> Inl e
                         | Inr salle_info \<Rightarrow>
                             Inr (if type_salle salle_info \<noteq> salle_requise infos_matiere
                                  then signaler (Erreur_salle matiere
                                                   (salle_requise infos_matiere) salle) st2
                                  else st2)))))"

fun foldl_err :: "('s \<Rightarrow> 'a \<Rightarrow> error + 's) \<Rightarrow> 's \<Rightarrow> 'a list \<Rightarrow> error + 's" where
  "foldl_err f s [] = Inr s"
| "foldl_err f s (x # xs) = (case f s x of Inl e \<Rightarrow> Inl e | Inr s' \<Rightarrow> foldl_err f s' xs)"

text \<open>\<open>collections.Counter\<close>: the elements in order of first occurrence, with their counts.\<close>

fun counter_add :: "'a \<Rightarrow> ('a \<times> nat) list \<Rightarrow> ('a \<times> nat) list" where
  "counter_add x [] = [(x, 1)]"
| "counter_add x ((y, n) # rest) =
     (if x = y then (y, n + 1) # rest else (y, n) # counter_add x rest)"

definition Counter :: "'a list \<Rightarrow> ('a \<times> nat) list" where
  "Counter xs = foldl (\<lambda>c x. counter_add x c) [] xs"

definition conflits :: "string \<Rightarrow> (string \<times> creneau list) list \<Rightarrow> violation list" where
  "conflits resource_name conflicts_dict =
     concat (map (\<lambda>(resource, slots).
                    [Erreur_conflit resource_name resource count slot.
                       (slot, count) \<leftarrow> Counter slots, 1 < count])
                 conflicts_dict)"

definition etat_initial :: etat_verif where
  "etat_initial =
     \<lparr>cours_assignes = 0, conflits_prof = [], conflits_salle = [], conflits_groupe = [],
      is_valid = True, sortie = []\<rparr>"

definition verifier_solution ::
  "solution \<Rightarrow> cours list \<Rightarrow> config \<Rightarrow> error + (bool \<times> violation list)" where
  "verifier_solution solution cours_planifies cfg =
     (case foldl_err (verifier_entree cfg) etat_initial (entrees solution) of
        Inl e \<Rightarrow> Inl e
      | Inr st \<Rightarrow>
          (let st3 = (if cours_assignes st \<noteq> length cours_planifies
                      then signaler (Erreur_nombre (length cours_planifies)
                                       (cours_assignes st)) st
                      else st);
               st6 = foldl (\<lambda>s v. signaler v s) st3
                       (conflits ''professeur'' (conflits_prof st) @
                        conflits ''salle'' (conflits_salle st) @
                        conflits ''groupe'' (conflits_groupe st))
           in Inr (is_valid st6, sortie st6)))"

section \<open>create_schedule_from_config\<close>

text \<open>
  The whole run, from the loaded configuration (\<open>None\<close> when \<open>load_config\<close> found or
  parsed no file). The lines printed on the way are left out except the analysis printed
  when no solution is found; the timetable printed per class is formatting only. The
  order in which Python iterates over the set of the subjects is not fixed by the
  program: it is the parameter \<open>set_iter\<close>, from the subjects of the course list to the
  order they are visited in.
\<close>

datatype outcome =
    Config_non_chargee
  | Config_invalide "config_error list"
  | Aucune_solution status "diagnostic list"
  | Solution_trouvee solution rapport bool "violation list"

definition create_schedule_from_config ::
  "config option \<Rightarrow> solver \<Rightarrow> (string list \<Rightarrow> string list) \<Rightarrow> error + outcome" where
  "create_schedule_from_config config solve set_iter =
     (case config of
        None \<Rightarrow> Inr Config_non_chargee
      | Some cfg \<Rightarrow>
          (let errors = validate_config cfg
           in if errors \<noteq> [] then Inr (Config_invalide errors)
              else
                (let cours_a_planifier = generate_cours_from_config cfg
                 in case create_variables cfg cours_a_planifier of
                      (created, Some e) \<Rightarrow> Inl e
                    | (created, None) \<Rightarrow>
                        (let assignments = dict_keys created;
                             model = build_model cfg cours_a_planifier assignments
                         in case solve model of
                              (status, val) \<Rightarrow>
                                if status = OPTIMAL \<or> status = FEASIBLE then
                                  (let solution = decode val assignments
                                   in case afficher_salles_libres solution cfg of
                                        Inl e \<Rightarrow> Inl e
                                      | Inr r \<Rightarrow>
                                          (case verifier_solution solution
                                                  cours_a_planifier cfg of
                                             Inl e \<Rightarrow> Inl e
                                           | Inr (ok, out) \<Rightarrow>
                                               Inr (Solution_trouvee solution r ok out)))
                                else
                                  (case map_err (diagnostic_matiere cfg cours_a_planifier)
                                          (set_iter (map (\<lambda>(g, m, cid). m)
                                                         cours_a_planifier)) of
                                     Inl e \<Rightarrow> Inl e
                                   | Inr ds \<Rightarrow> Inr (Aucune_solution status ds))))))"

text \<open>What the function returns: the solution, or \<open>None\<close> on every other path.\<close>

fun valeur_retournee :: "outcome \<Rightarrow> solution option" where
  "valeur_retournee (Solution_trouvee solution r ok out) = Some solution"
| "valeur_retournee other = None"

section \<open>Properties of the curriculum expansion\<close>

lemma numeroter_append:
  "numeroter n (xs @ ys) = numeroter n xs @ numeroter (n + length xs) ys"
  by (simp add: numeroter_def enumerate_append_eq)

lemma length_numeroter [simp]: "length (numeroter n xs) = length xs"
  by (simp add: numeroter_def)

lemma loop_range_eq:
  "loop_range g m nb (acc, cid) =
     (acc @ numeroter cid (replicate (nat nb) (g, m)), cid + nat nb)"
proof -
  have "((append_cours g m) ^^ k) (acc, cid) =
          (acc @ numeroter cid (replicate k (g, m)), cid + k)" for k
  proof (induction k)
    case 0
    show ?case by (simp add: numeroter_def)
  next
    case (Suc k)
    have "replicate (Suc k) (g, m) = replicate k (g, m) @ [(g, m)]"
      by (simp add: replicate_append_same)
    then show ?case
      using Suc by (simp add: append_cours_def numeroter_append) (simp add: numeroter_def)
  qed
  then show ?thesis by (simp add: loop_range_def)
qed

lemma loop_matieres_eq:
  "loop_matieres g mo (acc, cid) =
     (let xs = concat (map (\<lambda>(m, nb). replicate (nat nb) (g, m)) mo)
      in (acc @ numeroter cid xs, cid + length xs))"
proof (induction mo arbitrary: acc cid)
  case Nil
  show ?case by (simp add: loop_matieres_def numeroter_def)
next
  case (Cons a mo)
  obtain m nb where a: "a = (m, nb)" by (cases a)
  have "loop_matieres g (a # mo) (acc, cid) =
          loop_matieres g mo (loop_range g m nb (acc, cid))"
    by (simp add: loop_matieres_def a)
  then show ?case
    using Cons [of "acc @ numeroter cid (replicate (nat nb) (g, m))" "cid + nat nb"]
    by (simp add: loop_range_eq a Let_def numeroter_append add.assoc)
qed

lemma loop_groupe_eq:
  "loop_groupe cfg (acc, cid) g =
     (acc @ numeroter cid (cours_du_groupe cfg g), cid + length (cours_du_groupe cfg g))"
  by (simp add: loop_groupe_def cours_du_groupe_def loop_matieres_eq Let_def numeroter_def
           split: option.split)

lemma foldl_loop_groupe:
  "foldl (loop_groupe cfg) (acc, cid) gs =
     (let xs = concat (map (cours_du_groupe cfg) gs)
      in (acc @ numeroter cid xs, cid + length xs))"
proof (induction gs arbitrary: acc cid)
  case Nil
  show ?case by (simp add: numeroter_def)
next
  case (Cons g gs)
  show ?case
    using Cons [of "acc @ numeroter cid (cours_du_groupe cfg g)"
                   "cid + length (cours_du_groupe cfg g)"]
    by (simp add: loop_groupe_eq Let_def numeroter_append add.assoc)
qed

lemma generate_cours_expansion:
  "generate_cours_from_config cfg = expansion_ordonnee cfg"
  by (simp add: generate_cours_from_config_def expansion_ordonnee_def foldl_loop_groupe
                Let_def)


lemma map_id_numeroter:
  "map (\<lambda>(g, m, i). i) (numeroter n xs) = [n..<n + length xs]"
  by (simp add: numeroter_def map_fst_enumerate [symmetric] split_def del: map_fst_enumerate)

lemma cours_du_groupe_update:
  "cours_du_groupe (cfg\<lparr>groupes_eleves := gs\<rparr>) = cours_du_groupe cfg"
  by (rule ext) (simp add: cours_du_groupe_def)

section \<open>Claims on the curriculum expansion\<close>

text \<open>
  Claim C5. The list returned by \<open>generate_cours_from_config\<close> is the list of courses
  in group order (the order of the configuration), then subject order (the order of the
  level's curriculum), then occurrence index, and the identifiers are assigned along that
  order. The result is a function of the configuration alone, so two runs on the same
  configuration return the same list with the same identifiers.
\<close>

theorem generate_cours_ordre_deterministe:
  "generate_cours_from_config cfg =
     numeroter 0 (concat (map (cours_du_groupe cfg) (groupes_eleves cfg))) \<and>
   generate_cours_from_config cfg = expansion_ordonnee cfg"
  by (simp add: generate_cours_expansion) (simp add: expansion_ordonnee_def)

text \<open>
  Claim C9. The identifiers of the returned courses are the consecutive integers
  \<open>0, 1, ..., n - 1\<close> in list order: the element at position \<open>i\<close> carries
  identifier \<open>i\<close>.
\<close>

theorem generate_cours_ids_consecutifs:
  "map (\<lambda>(groupe, matiere, cours_id). cours_id) (generate_cours_from_config cfg) =
     [0..<length (generate_cours_from_config cfg)]"
  by (simp add: generate_cours_expansion expansion_ordonnee_def map_id_numeroter)

text \<open>
  Claim C8. A group whose level has no entry in the curriculum does not make the
  expansion fail (the function has no failing branch: it returns a list for every
  configuration) and contributes no course: the result is the one obtained without that
  group, so the groups before and after it are expanded and numbered as usual.
\<close>

theorem generate_cours_niveau_absent:
  assumes "map_of (curriculum cfg) (niveau g) = None"
  shows "cours_du_groupe cfg g = [] \<and>
         generate_cours_from_config (cfg\<lparr>groupes_eleves := gs1 @ g # gs2\<rparr>) =
           generate_cours_from_config (cfg\<lparr>groupes_eleves := gs1 @ gs2\<rparr>)"
proof -
  have "cours_du_groupe cfg g = []"
    using assms by (simp add: cours_du_groupe_def)
  then show ?thesis
    by (simp add: generate_cours_expansion expansion_ordonnee_def cours_du_groupe_update)
qed

definition cfg_niveau_absent :: config where
  "cfg_niveau_absent =
     \<lparr>groupes_eleves = [],
      curriculum = [(''6e'', \<lparr>matieres_obligatoires = [(''Maths'', 2), (''Sport'', 1)]\<rparr>)],
      professeurs = [], salles = [], matieres = [],
      planning = \<lparr>jours = [], heures = []\<rparr>\<rparr>"

theorem generate_cours_niveau_absent_witness:
  "map_of (curriculum cfg_niveau_absent) (niveau \<lparr>nom = ''B'', niveau = ''5e''\<rparr>) = None \<and>
   generate_cours_from_config
     (cfg_niveau_absent\<lparr>groupes_eleves :=
        [\<lparr>nom = ''A'', niveau = ''6e''\<rparr>] @
        \<lparr>nom = ''B'', niveau = ''5e''\<rparr> # [\<lparr>nom = ''C'', niveau = ''6e''\<rparr>]\<rparr>) =
     [(''A'', ''Maths'', 0), (''A'', ''Maths'', 1), (''A'', ''Sport'', 2),
      (''C'', ''Maths'', 3), (''C'', ''Maths'', 4), (''C'', ''Sport'', 5)]"
proof -
  have h: "map_of (curriculum cfg_niveau_absent) (niveau \<lparr>nom = ''B'', niveau = ''5e''\<rparr>) = None"
    by (simp add: cfg_niveau_absent_def)
  have e: "generate_cours_from_config
     (cfg_niveau_absent\<lparr>groupes_eleves :=
        [\<lparr>nom = ''A'', niveau = ''6e''\<rparr>] @ [\<lparr>nom = ''C'', niveau = ''6e''\<rparr>]\<rparr>) =
     [(''A'', ''Maths'', 0), (''A'', ''Maths'', 1), (''A'', ''Sport'', 2),
      (''C'', ''Maths'', 3), (''C'', ''Maths'', 4), (''C'', ''Sport'', 5)]"
    by code_simp
  show ?thesis
    using h e generate_cours_niveau_absent [OF h, of "[\<lparr>nom = ''A'', niveau = ''6e''\<rparr>]"
        "[\<lparr>nom = ''C'', niveau = ''6e''\<rparr>]"]
    by simp
qed


section \<open>Claims on the decision variables\<close>

lemma collect_set:
  assumes "y \<in> set (fst (collect f xs))"
  shows "\<exists>x \<in> set xs. y \<in> set (fst (f x))"
  using assms
proof (induction xs)
  case Nil
  then show ?case by simp
next
  case (Cons x xs)
  obtain ys r where fx: "f x = (ys, r)" by (cases "f x")
  show ?case
  proof (cases r)
    case None
    obtain zs r' where c: "collect f xs = (zs, r')" by (cases "collect f xs")
    from Cons.prems fx None c have "y \<in> set ys \<or> y \<in> set zs" by simp
    then show ?thesis using Cons.IH fx c by auto
  next
    case (Some e)
    with Cons.prems fx show ?thesis by simp
  qed
qed

lemma variables_jours_set:
  assumes "k \<in> set (variables_jours cfg prof_info (g, m, cid) prof salle)"
  shows "\<exists>j h. k = (g, m, cid, prof, salle, j, h) \<and>
           j \<notin> set (jours_indisponibles (contraintes prof_info)) \<and>
           h \<notin> set (heures_indisponibles (contraintes prof_info)) \<and>
           j \<in> set (jours (planning cfg)) \<and> h \<in> set (heures (planning cfg))"
  using assms unfolding variables_jours_def by (simp add: image_iff) blast

lemma variables_salle_eligible:
  assumes k: "k \<in> set (fst (variables_salle cfg prof_info (g, m, cid) prof salle))"
    and p: "map_of (professeurs cfg) prof = Some prof_info"
    and t: "m \<in> set (matieres_enseignees prof_info)"
  shows "regles_eligibilite cfg k \<and> (\<exists>p s j h. k = (g, m, cid, p, s, j, h))"
proof (cases "map_of (matieres cfg) m")
  case None
  with k show ?thesis by (simp add: variables_salle_def)
next
  case mi: (Some infos_matiere)
  show ?thesis
  proof (cases "map_of (salles cfg) salle")
    case None
    with k mi show ?thesis by (simp add: variables_salle_def)
  next
    case si: (Some salle_info)
    show ?thesis
    proof (cases "type_salle salle_info = salle_requise infos_matiere")
      case False
      with k mi si show ?thesis by (simp add: variables_salle_def)
    next
      case True
      with k mi si have "k \<in> set (variables_jours cfg prof_info (g, m, cid) prof salle)"
        by (simp add: variables_salle_def)
      then obtain j h where kk: "k = (g, m, cid, prof, salle, j, h)"
        and j: "j \<notin> set (jours_indisponibles (contraintes prof_info))"
        and h: "h \<notin> set (heures_indisponibles (contraintes prof_info))"
        using variables_jours_set by blast
      have "regles_eligibilite cfg k"
        unfolding kk regles_eligibilite_def using p mi si True t j h by simp
      then show ?thesis using kk by simp
    qed
  qed
qed

lemma variables_prof_eligible:
  assumes "k \<in> set (fst (variables_prof cfg (g, m, cid) prof))"
  shows "regles_eligibilite cfg k \<and> (\<exists>p s j h. k = (g, m, cid, p, s, j, h))"
proof (cases "map_of (professeurs cfg) prof")
  case None
  with assms show ?thesis by (simp add: variables_prof_def)
next
  case (Some prof_info)
  show ?thesis
  proof (cases "m \<in> set (matieres_enseignees prof_info)")
    case False
    with assms Some show ?thesis by (simp add: variables_prof_def)
  next
    case True
    with assms Some
    have "k \<in> set (fst (collect (variables_salle cfg prof_info (g, m, cid) prof)
                                 (map fst (salles cfg))))"
      by (simp add: variables_prof_def)
    then obtain salle where
      "k \<in> set (fst (variables_salle cfg prof_info (g, m, cid) prof salle))"
      using collect_set by fast
    then show ?thesis using variables_salle_eligible Some True by blast
  qed
qed

lemma create_variables_eligible:
  assumes "k \<in> set (fst (create_variables cfg cs))"
  shows "regles_eligibilite cfg k \<and>
         (\<exists>g m cid p s j h. k = (g, m, cid, p, s, j, h) \<and> (g, m, cid) \<in> set cs)"
proof -
  from assms obtain c where c: "c \<in> set cs" "k \<in> set (fst (variables_cours cfg c))"
    unfolding create_variables_def using collect_set by fast
  obtain g m cid where cc: "c = (g, m, cid)" by (cases c)
  from c(2) obtain prof where "k \<in> set (fst (variables_prof cfg c prof))"
    unfolding variables_cours_def using collect_set by fast
  then have e: "regles_eligibilite cfg k" and "\<exists>p s j h. k = (g, m, cid, p, s, j, h)"
    using variables_prof_eligible [of k cfg g m cid prof] cc by simp_all
  then obtain p s j h where "k = (g, m, cid, p, s, j, h)" by blast
  then have "k = (g, m, cid, p, s, j, h) \<and> (g, m, cid) \<in> set cs"
    using c(1) cc by simp
  then show ?thesis using e by blast
qed

text \<open>
  Claim C1. Every tuple for which \<open>create_schedule_from_config\<close> creates a decision
  variable, for any course of the list, passes the four eligibility rules when they are
  checked again: the teacher teaches the subject, the type of the room is the type the
  subject requires, the day is not one of the teacher's unavailable days and the hour is
  not one of the teacher's unavailable hours. It holds also for the variables created
  before a failing lookup ends the loops.
\<close>

theorem filtre_admet_seulement_eligibles:
  "\<forall>k \<in> set (fst (create_variables cfg (generate_cours_from_config cfg))).
     regles_eligibilite cfg k"
  using create_variables_eligible [of _ cfg] by simp


definition cfg_exemple :: config where
  "cfg_exemple =
     \<lparr>groupes_eleves = [\<lparr>nom = ''6A'', niveau = ''6e''\<rparr>, \<lparr>nom = ''6B'', niveau = ''6e''\<rparr>],
      curriculum = [(''6e'', \<lparr>matieres_obligatoires = [(''Maths'', 1)]\<rparr>)],
      professeurs =
        [(''Dupont'', \<lparr>matieres_enseignees = [''Maths''],
                       contraintes = \<lparr>jours_indisponibles = [''Mardi''],
                                      heures_indisponibles = []\<rparr>\<rparr>)],
      salles = [(''S1'', \<lparr>type_salle = ''standard'', capacite = Some 30, equipements = []\<rparr>),
                (''S2'', \<lparr>type_salle = ''lab'', capacite = None, equipements = []\<rparr>)],
      matieres = [(''Maths'', \<lparr>salle_requise = ''standard''\<rparr>)],
      planning = \<lparr>jours = [''Lundi'', ''Mardi''], heures = [''8h'', ''9h'']\<rparr>\<rparr>"

theorem filtre_admet_seulement_eligibles_witness:
  "(''6A'', ''Maths'', 0, ''Dupont'', ''S1'', ''Lundi'', ''9h'')
     \<in> set (fst (create_variables cfg_exemple (generate_cours_from_config cfg_exemple))) \<and>
   regles_eligibilite cfg_exemple (''6A'', ''Maths'', 0, ''Dupont'', ''S1'', ''Lundi'', ''9h'')"
proof -
  have m: "(''6A'', ''Maths'', 0, ''Dupont'', ''S1'', ''Lundi'', ''9h'')
     \<in> set (fst (create_variables cfg_exemple (generate_cours_from_config cfg_exemple)))"
    by code_simp
  show ?thesis
    using m filtre_admet_seulement_eligibles [of cfg_exemple] by blast
qed

section \<open>A validated configuration raises no KeyError\<close>

lemma validate_config_Nil:
  assumes "validate_config cfg = []"
  shows "[Matiere_inexistante prof_nom matiere.
               (prof_nom, prof_info) \<leftarrow> professeurs cfg,
               matiere \<leftarrow> matieres_enseignees prof_info,
               matiere \<notin> set (map fst (matieres cfg))] = []"
    and "[Aucun_professeur matiere niv.
               (niv, cur) \<leftarrow> curriculum cfg,
               matiere \<leftarrow> map fst (matieres_obligatoires cur),
               [p. (p, pinfo) \<leftarrow> professeurs cfg,
                   matiere \<in> set (matieres_enseignees pinfo)] = []] = []"
  using assms unfolding validate_config_def Let_def by simp_all

lemma concat_map_NilD:
  "concat (map f xs) = [] \<Longrightarrow> x \<in> set xs \<Longrightarrow> f x = []"
  by (induction xs) auto

lemma validate_errors1:
  assumes v: "validate_config cfg = []" and p: "(p, pinfo) \<in> set (professeurs cfg)"
    and m: "m \<in> set (matieres_enseignees pinfo)"
  shows "m \<in> fst ` set (matieres cfg)"
proof -
  have "concat (map (\<lambda>matiere. if matiere \<notin> set (map fst (matieres cfg))
                       then [Matiere_inexistante p matiere] else [])
                    (matieres_enseignees pinfo)) = []"
    using concat_map_NilD [OF validate_config_Nil(1) [OF v] p] by simp
  from concat_map_NilD [OF this m] show ?thesis
    by (simp split: if_splits)
qed

lemma validate_errors2:
  assumes v: "validate_config cfg = []" and c: "(niv, cur) \<in> set (curriculum cfg)"
    and m: "m \<in> fst ` set (matieres_obligatoires cur)"
  shows "\<exists>p pinfo. (p, pinfo) \<in> set (professeurs cfg) \<and> m \<in> set (matieres_enseignees pinfo)"
proof (rule ccontr)
  assume n: "\<not> ?thesis"
  have e: "concat (map (\<lambda>(p, pinfo). if m \<in> set (matieres_enseignees pinfo) then [p] else [])
                       (professeurs cfg)) = []"
    unfolding concat_eq_Nil_conv using n by auto
  have "concat (map (\<lambda>matiere.
                       if concat (map (\<lambda>(p, pinfo).
                                        if matiere \<in> set (matieres_enseignees pinfo)
                                        then [p] else [])
                                      (professeurs cfg)) = []
                       then [Aucun_professeur matiere niv] else [])
                    (map fst (matieres_obligatoires cur))) = []"
    using concat_map_NilD [OF validate_config_Nil(2) [OF v] c] by simp
  from concat_map_NilD [OF this, of m] m e show False
    by simp
qed
lemma collect_no_error:
  assumes "\<And>x. x \<in> set xs \<Longrightarrow> snd (f x) = None"
  shows "snd (collect f xs) = None"
  using assms
proof (induction xs)
  case Nil
  show ?case by simp
next
  case (Cons x xs)
  obtain ys where fx: "f x = (ys, None)" using Cons.prems [of x] by (cases "f x") simp
  obtain zs where c: "collect f xs = (zs, None)"
    using Cons by (cases "collect f xs") simp
  show ?case by (simp add: fx c)
qed

lemma map_of_keys: "k \<in> fst ` set d \<Longrightarrow> \<exists>v. map_of d k = Some v"
  by (cases "map_of d k") (auto simp: map_of_eq_None_iff)

lemma variables_salle_no_error:
  assumes v: "validate_config cfg = []"
    and p: "map_of (professeurs cfg) prof = Some pinfo"
    and m: "m \<in> set (matieres_enseignees pinfo)"
    and s: "salle \<in> set (map fst (salles cfg))"
  shows "snd (variables_salle cfg pinfo (g, m, cid) prof salle) = None"
proof -
  from p have "(prof, pinfo) \<in> set (professeurs cfg)" by (rule map_of_SomeD)
  then have "m \<in> fst ` set (matieres cfg)" by (rule validate_errors1 [OF v _ m])
  then obtain mi where mi: "map_of (matieres cfg) m = Some mi"
    using map_of_keys [of m "matieres cfg"] by blast
  from s have "salle \<in> fst ` set (salles cfg)" by simp
  then obtain si where si: "map_of (salles cfg) salle = Some si"
    using map_of_keys [of salle "salles cfg"] by blast
  show ?thesis
    unfolding variables_salle_def by (simp add: mi si)
qed

lemma variables_prof_no_error:
  assumes v: "validate_config cfg = []"
    and p: "prof \<in> set (map fst (professeurs cfg))"
  shows "snd (variables_prof cfg c prof) = None"
proof -
  obtain g m cid where c: "c = (g, m, cid)" by (cases c)
  from p have "prof \<in> fst ` set (professeurs cfg)" by simp
  then obtain pinfo where pi: "map_of (professeurs cfg) prof = Some pinfo"
    using map_of_keys [of prof "professeurs cfg"] by blast
  show ?thesis
  proof (cases "m \<in> set (matieres_enseignees pinfo)")
    case False
    then show ?thesis by (simp add: variables_prof_def c pi)
  next
    case True
    have "snd (collect (variables_salle cfg pinfo (g, m, cid) prof) (map fst (salles cfg))) = None"
      by (rule collect_no_error) (rule variables_salle_no_error [OF v pi True])
    with True show ?thesis by (simp add: variables_prof_def c pi)
  qed
qed

lemma create_variables_no_error:
  assumes v: "validate_config cfg = []"
  shows "snd (create_variables cfg cs) = None"
  unfolding create_variables_def
proof (rule collect_no_error)
  fix c
  show "snd (variables_cours cfg c) = None"
    unfolding variables_cours_def
    by (rule collect_no_error) (rule variables_prof_no_error [OF v])
qed

lemma numeroter_set:
  "(g, m, cid) \<in> set (numeroter n xs) \<Longrightarrow> (g, m) \<in> set xs"
proof (induction xs arbitrary: n)
  case Nil
  then show ?case by (simp add: numeroter_def)
next
  case (Cons a xs)
  obtain g' m' where a: "a = (g', m')" by (cases a)
  have "numeroter n (a # xs) = (g', m', n) # numeroter (Suc n) xs"
    by (simp add: numeroter_def a)
  with Cons.prems have "(g, m) = (g', m') \<or> (g, m, cid) \<in> set (numeroter (Suc n) xs)"
    by auto
  then show ?case using Cons.IH a by auto
qed

lemma cours_du_groupe_matiere:
  assumes "(g, m) \<in> set (cours_du_groupe cfg gi)"
  shows "\<exists>niv cur. (niv, cur) \<in> set (curriculum cfg) \<and> m \<in> fst ` set (matieres_obligatoires cur)"
proof (cases "map_of (curriculum cfg) (niveau gi)")
  case None
  with assms show ?thesis by (simp add: cours_du_groupe_def)
next
  case (Some cur)
  then have c: "(niveau gi, cur) \<in> set (curriculum cfg)" by (rule map_of_SomeD)
  from assms Some obtain mb where "mb \<in> set (matieres_obligatoires cur)"
    "(g, m) \<in> set (case mb of (matiere, nb_cours) \<Rightarrow> replicate (nat nb_cours) (nom gi, matiere))"
    by (auto simp: cours_du_groupe_def)
  then obtain m' nb where mb: "(m', nb) \<in> set (matieres_obligatoires cur)"
    and r: "(g, m) \<in> set (replicate (nat nb) (nom gi, m'))"
    by (cases mb) auto
  from r have "m = m'" by (auto split: if_splits)
  with mb have "m \<in> fst ` set (matieres_obligatoires cur)" by force
  with c show ?thesis by blast
qed

lemma generate_cours_matiere:
  assumes "(g, m, cid) \<in> set (generate_cours_from_config cfg)"
  shows "\<exists>niv cur. (niv, cur) \<in> set (curriculum cfg) \<and> m \<in> fst ` set (matieres_obligatoires cur)"
proof -
  from assms have "(g, m) \<in> set (concat (map (cours_du_groupe cfg) (groupes_eleves cfg)))"
    unfolding generate_cours_expansion expansion_ordonnee_def by (rule numeroter_set)
  then obtain gi where "(g, m) \<in> set (cours_du_groupe cfg gi)" by auto
  then show ?thesis by (rule cours_du_groupe_matiere)
qed

lemma filter_err_total:
  assumes "\<And>x. x \<in> set xs \<Longrightarrow> p x = Inr (q x)"
  shows "filter_err p xs = Inr (filter q xs)"
  using assms by (induction xs) auto

lemma map_err_total:
  assumes "\<And>x. x \<in> set xs \<Longrightarrow> f x = Inr (h x)"
  shows "map_err f xs = Inr (map h xs)"
  using assms by (induction xs) auto

lemma diagnostic_matiere_comptes:
  assumes v: "validate_config cfg = []"
    and m: "(g, m, cid) \<in> set (generate_cours_from_config cfg)"
  shows "diagnostic_matiere cfg cs m = Inr (comptes_matiere cfg cs m)"
proof -
  obtain niv cur where "(niv, cur) \<in> set (curriculum cfg)"
    "m \<in> fst ` set (matieres_obligatoires cur)"
    using generate_cours_matiere [OF m] by blast
  then obtain p pinfo where "(p, pinfo) \<in> set (professeurs cfg)"
    "m \<in> set (matieres_enseignees pinfo)"
    using validate_errors2 [OF v] by blast
  then have "m \<in> fst ` set (matieres cfg)" by (rule validate_errors1 [OF v])
  then obtain mi where mi: "map_of (matieres cfg) m = Some mi"
    using map_of_keys [of m "matieres cfg"] by blast
  have 1: "filter_err
             (\<lambda>p. case lookup (professeurs cfg) p of
                     Inl e \<Rightarrow> Inl e
                   | Inr prof_info \<Rightarrow> Inr (m \<in> set (matieres_enseignees prof_info)))
             (map fst (professeurs cfg)) =
           Inr (filter (prof_competent cfg m) (map fst (professeurs cfg)))"
  proof (rule filter_err_total)
    fix x assume "x \<in> set (map fst (professeurs cfg))"
    then have "x \<in> fst ` set (professeurs cfg)" by simp
    then obtain pi where "map_of (professeurs cfg) x = Some pi"
      using map_of_keys [of x "professeurs cfg"] by blast
    then show "(case lookup (professeurs cfg) x of
                     Inl e \<Rightarrow> Inl e
                   | Inr prof_info \<Rightarrow> Inr (m \<in> set (matieres_enseignees prof_info))) =
          Inr (prof_competent cfg m x)"
      by (simp add: lookup_def prof_competent_def)
  qed
  have 2: "filter_err
             (\<lambda>s. case lookup (salles cfg) s of
                     Inl e \<Rightarrow> Inl e
                   | Inr salle_info \<Rightarrow>
                       (case lookup (matieres cfg) m of
                          Inl e \<Rightarrow> Inl e
                        | Inr infos_matiere \<Rightarrow>
                            Inr (type_salle salle_info = salle_requise infos_matiere)))
             (map fst (salles cfg)) =
           Inr (filter (salle_compatible cfg m) (map fst (salles cfg)))"
  proof (rule filter_err_total)
    fix x assume "x \<in> set (map fst (salles cfg))"
    then have "x \<in> fst ` set (salles cfg)" by simp
    then obtain si where "map_of (salles cfg) x = Some si"
      using map_of_keys [of x "salles cfg"] by blast
    then show "(case lookup (salles cfg) x of
                     Inl e \<Rightarrow> Inl e
                   | Inr salle_info \<Rightarrow>
                       (case lookup (matieres cfg) m of
                          Inl e \<Rightarrow> Inl e
                        | Inr infos_matiere \<Rightarrow>
                            Inr (type_salle salle_info = salle_requise infos_matiere))) =
          Inr (salle_compatible cfg m x)"
      by (simp add: lookup_def salle_compatible_def mi)
  qed
  have 3: "(\<lambda>c. case c of (g, m', cid) \<Rightarrow> m' = m) = (\<lambda>c. fst (snd c) = m)"
    by (rule ext) (simp add: split_def)
  show ?thesis
    unfolding diagnostic_matiere_def 1 2 by (simp add: comptes_matiere_def 3)
qed

section \<open>Claims on the outcome of the solver\<close>

text \<open>
  Claim C4. For a configuration that passed \<open>validate_config\<close>, when the solver returns
  a status other than \<open>OPTIMAL\<close> and \<open>FEASIBLE\<close>, the function returns \<open>None\<close>
  (no solution is decoded) after printing, for every subject of the course list, once,
  the number of its courses, the number of teachers competent in it and the number of
  rooms of the type it requires. The order of the lines is the order in which the set of
  the subjects is iterated.
\<close>

theorem aucune_solution_diagnostic:
  assumes v: "validate_config cfg = []"
    and s: "solve (build_model cfg (generate_cours_from_config cfg)
                     (dict_keys (fst (create_variables cfg (generate_cours_from_config cfg)))))
            = (st, val)"
    and st: "st \<noteq> OPTIMAL" "st \<noteq> FEASIBLE"
    and it: "set (set_iter (map (\<lambda>(g, m, cid). m) (generate_cours_from_config cfg))) =
             set (map (\<lambda>(g, m, cid). m) (generate_cours_from_config cfg))"
            "distinct (set_iter (map (\<lambda>(g, m, cid). m) (generate_cours_from_config cfg)))"
  shows "create_schedule_from_config (Some cfg) solve set_iter =
           Inr (Aucune_solution st
                  (map (comptes_matiere cfg (generate_cours_from_config cfg))
                       (set_iter (map (\<lambda>(g, m, cid). m) (generate_cours_from_config cfg))))) \<and>
         valeur_retournee
           (Aucune_solution st
              (map (comptes_matiere cfg (generate_cours_from_config cfg))
                   (set_iter (map (\<lambda>(g, m, cid). m) (generate_cours_from_config cfg))))) = None \<and>
         set (map (comptes_matiere cfg (generate_cours_from_config cfg))
                  (set_iter (map (\<lambda>(g, m, cid). m) (generate_cours_from_config cfg)))) =
           comptes_matiere cfg (generate_cours_from_config cfg) `
             set (map (\<lambda>(g, m, cid). m) (generate_cours_from_config cfg)) \<and>
         distinct (map (comptes_matiere cfg (generate_cours_from_config cfg))
                  (set_iter (map (\<lambda>(g, m, cid). m) (generate_cours_from_config cfg))))"
proof -
  define cs where "cs = generate_cours_from_config cfg"
  define ms where "ms = set_iter (map (\<lambda>(g, m, cid). m) cs)"
  obtain created where c: "create_variables cfg cs = (created, None)"
    using create_variables_no_error [OF v, of cs] by (cases "create_variables cfg cs") simp
  have d: "map_err (diagnostic_matiere cfg cs) ms = Inr (map (comptes_matiere cfg cs) ms)"
  proof (rule map_err_total)
    fix m assume "m \<in> set ms"
    then have "m \<in> set (map (\<lambda>(g, m, cid). m) cs)" using it(1) by (simp add: ms_def cs_def)
    then obtain g cid where "(g, m, cid) \<in> set cs" by auto
    then show "diagnostic_matiere cfg cs m = Inr (comptes_matiere cfg cs m)"
      unfolding cs_def by (rule diagnostic_matiere_comptes [OF v])
  qed
  have s': "solve (build_model cfg cs (dict_keys created)) = (st, val)"
    using s c by (simp add: cs_def)
  have run: "create_schedule_from_config (Some cfg) solve set_iter =
               Inr (Aucune_solution st (map (comptes_matiere cfg cs) ms))"
    unfolding create_schedule_from_config_def
    using v c s' st d by (simp add: cs_def [symmetric] ms_def [symmetric])
  have inj: "inj (comptes_matiere cfg cs)"
    by (rule injI) (simp add: comptes_matiere_def)
  have dist: "distinct (map (comptes_matiere cfg cs) ms)"
    using it(2) inj by (simp add: distinct_map ms_def cs_def inj_on_def)
  have img: "set (map (comptes_matiere cfg cs) ms) =
             comptes_matiere cfg cs ` set (map (\<lambda>(g, m, cid). m) cs)"
    using it(1) by (simp add: ms_def cs_def)
  show ?thesis
    using run dist img by (simp add: cs_def ms_def)
qed

theorem aucune_solution_diagnostic_witness:
  "validate_config cfg_exemple = [] \<and>
   create_schedule_from_config (Some cfg_exemple) (\<lambda>m. (INFEASIBLE, \<lambda>k. False)) remdups =
     Inr (Aucune_solution INFEASIBLE [(''Maths'', 2, 1, 1)])"
proof -
  have v: "validate_config cfg_exemple = []" by code_simp
  have d: "map (comptes_matiere cfg_exemple (generate_cours_from_config cfg_exemple))
             (remdups (map (\<lambda>(g, m, cid). m) (generate_cours_from_config cfg_exemple))) =
           [(''Maths'', 2, 1, 1)]"
    by code_simp
  show ?thesis
    using v d aucune_solution_diagnostic [OF v, of "\<lambda>m. (INFEASIBLE, \<lambda>k. False)"
        INFEASIBLE "\<lambda>k. False" remdups]
    by simp
qed


section \<open>Claims on the coverage constraints\<close>

lemma generate_cours_ids:
  "map (\<lambda>(g, m, i). i) (generate_cours_from_config cfg) =
     [0..<length (generate_cours_from_config cfg)]"
  by (simp add: generate_cours_expansion expansion_ordonnee_def map_id_numeroter)

lemma generate_cours_id_inj:
  assumes "(g, m, cid) \<in> set (generate_cours_from_config cfg)"
    and "(g', m', cid) \<in> set (generate_cours_from_config cfg)"
  shows "g' = g \<and> m' = m"
proof -
  have "distinct (map (\<lambda>(g, m, i). i) (generate_cours_from_config cfg))"
    by (simp add: generate_cours_ids)
  then have "inj_on (\<lambda>(g, m, i). i) (set (generate_cours_from_config cfg))"
    by (simp add: distinct_map)
  from inj_onD [OF this _ assms(2) assms(1)] show ?thesis by simp
qed

lemma collect_fst:
  assumes "\<And>x. x \<in> set xs \<Longrightarrow> snd (f x) = None"
  shows "fst (collect f xs) = concat (map (\<lambda>x. fst (f x)) xs)"
  using assms
proof (induction xs)
  case Nil
  show ?case by simp
next
  case (Cons x xs)
  obtain ys where fx: "f x = (ys, None)" using Cons.prems [of x] by (cases "f x") simp
  obtain zs r where c: "collect f xs = (zs, r)" by (cases "collect f xs")
  have "zs = concat (map (\<lambda>x. fst (f x)) xs)" using Cons c by simp
  then show ?case by (simp add: fx c)
qed

lemma variables_cours_no_error:
  assumes v: "validate_config cfg = []"
  shows "snd (variables_cours cfg c) = None"
  unfolding variables_cours_def
  by (rule collect_no_error) (rule variables_prof_no_error [OF v])

lemma create_variables_set:
  assumes v: "validate_config cfg = []"
  shows "set (fst (create_variables cfg cs)) = (\<Union>c \<in> set cs. set (fst (variables_cours cfg c)))"
  unfolding create_variables_def
  by (simp add: collect_fst [OF variables_cours_no_error [OF v]])

lemma variables_cours_id:
  assumes "k \<in> set (fst (variables_cours cfg (g, m, cid)))"
  shows "\<exists>p s j h. k = (g, m, cid, p, s, j, h)"
proof -
  from assms obtain prof where "k \<in> set (fst (variables_prof cfg (g, m, cid) prof))"
    unfolding variables_cours_def using collect_set by fast
  then show ?thesis using variables_prof_eligible [of k cfg g m cid prof] by simp
qed

lemma set_dict_keys [simp]: "set (dict_keys xs) = set xs"
  by (simp add: dict_keys_def)

lemma candidats_du_cours:
  assumes v: "validate_config cfg = []"
    and c: "(g, m, cid) \<in> set (generate_cours_from_config cfg)"
  shows "set [key \<leftarrow> dict_keys (fst (create_variables cfg (generate_cours_from_config cfg))).
               (case key of (g', m', cid', p, s, j, h) \<Rightarrow> cid' = cid)] =
         set (fst (variables_cours cfg (g, m, cid)))"
    (is "set ?l = ?r")
proof (rule set_eqI)
  fix k
  show "k \<in> set ?l \<longleftrightarrow> k \<in> ?r"
  proof
    assume "k \<in> set ?l"
    then have k: "k \<in> set (fst (create_variables cfg (generate_cours_from_config cfg)))"
      and i: "(case k of (g', m', cid', p, s, j, h) \<Rightarrow> cid' = cid)"
      by simp_all
    from k obtain c' where c': "c' \<in> set (generate_cours_from_config cfg)"
      "k \<in> set (fst (variables_cours cfg c'))"
      unfolding create_variables_set [OF v] by blast
    obtain g' m' cid' where cc: "c' = (g', m', cid')" by (cases c')
    from c'(2) obtain p s j h where kk: "k = (g', m', cid', p, s, j, h)"
      unfolding cc using variables_cours_id by blast
    from i kk have "cid' = cid" by simp
    with c'(1) cc c have "g' = g \<and> m' = m" using generate_cours_id_inj [of g m cid cfg g' m'] by simp
    with c'(2) cc \<open>cid' = cid\<close> show "k \<in> ?r" by simp
  next
    assume r: "k \<in> ?r"
    then obtain p s j h where kk: "k = (g, m, cid, p, s, j, h)"
      using variables_cours_id by blast
    from r c have "k \<in> set (fst (create_variables cfg (generate_cours_from_config cfg)))"
      unfolding create_variables_set [OF v] by blast
    then show "k \<in> set ?l" using kk by simp
  qed
qed

lemma contrainte_cours_build_model:
  assumes "c \<in> set cs"
  shows "set (contrainte_cours a c) \<subseteq> set (constraints (build_model cfg cs a))"
  using assms by (auto simp: build_model_def)

text \<open>
  What \<open>create_schedule_from_config\<close> does with the answer of the solver (lines 200 to
  243), as a function of that answer.
\<close>

definition apres_resolution ::
  "config \<Rightarrow> cours list \<Rightarrow> key list \<Rightarrow> (string list \<Rightarrow> string list) \<Rightarrow>
   status \<times> (key \<Rightarrow> bool) \<Rightarrow> error + outcome" where
  "apres_resolution cfg cours_a_planifier assignments set_iter r =
     (case r of
        (status, val) \<Rightarrow>
          if status = OPTIMAL \<or> status = FEASIBLE then
            (let solution = decode val assignments
             in case afficher_salles_libres solution cfg of
                  Inl e \<Rightarrow> Inl e
                | Inr rap \<Rightarrow>
                    (case verifier_solution solution cours_a_planifier cfg of
                       Inl e \<Rightarrow> Inl e
                     | Inr (ok, out) \<Rightarrow> Inr (Solution_trouvee solution rap ok out)))
          else
            (case map_err (diagnostic_matiere cfg cours_a_planifier)
                    (set_iter (map (\<lambda>(g, m, cid). m) cours_a_planifier)) of
               Inl e \<Rightarrow> Inl e
             | Inr ds \<Rightarrow> Inr (Aucune_solution status ds)))"

lemma run_apres_resolution:
  assumes v: "validate_config cfg = []"
  shows "create_schedule_from_config (Some cfg) solve set_iter =
           apres_resolution cfg (generate_cours_from_config cfg)
             (dict_keys (fst (create_variables cfg (generate_cours_from_config cfg)))) set_iter
             (solve (build_model cfg (generate_cours_from_config cfg)
                       (dict_keys (fst (create_variables cfg (generate_cours_from_config cfg))))))"
proof -
  let ?cs = "generate_cours_from_config cfg"
  obtain created where c: "create_variables cfg ?cs = (created, None)"
    using create_variables_no_error [OF v, of ?cs] by (cases "create_variables cfg ?cs") simp
  obtain st val where s: "solve (build_model cfg ?cs (dict_keys created)) = (st, val)"
    by (cases "solve (build_model cfg ?cs (dict_keys created))")
  show ?thesis
    unfolding create_schedule_from_config_def apres_resolution_def
    using v c s by (simp add: Let_def)
qed

lemma contrainte_cours_dans_modele:
  assumes c: "c \<in> set cs" and n: "contrainte_cours a c = [ExactlyOne ks]"
  shows "ExactlyOne ks \<in> set (constraints (build_model cfg cs a))"
proof -
  have "ExactlyOne ks \<in> set (contrainte_cours a c)" using n by simp
  with c have "ExactlyOne ks \<in> set (concat (map (contrainte_cours a) cs))" by auto
  then show ?thesis by (simp add: build_model_def)
qed

text \<open>
  Claim C2, as amended. The source has no \<open>NoCandidateError\<close>: when a course has no
  candidate, nothing is raised. For a configuration that passed \<open>validate_config\<close>,
  creating the variables raises nothing, the solver is called on the model built from them
  and its answer decides the rest of the run, and the model holds an exactly-one
  constraint over the variables of every course that has candidates. What the model holds
  for a course without candidates is left out of this statement.
\<close>

theorem encodage_sans_erreur:
  assumes v: "validate_config cfg = []"
  shows "snd (create_variables cfg (generate_cours_from_config cfg)) = None \<and>
         create_schedule_from_config (Some cfg) solve set_iter =
           apres_resolution cfg (generate_cours_from_config cfg)
             (dict_keys (fst (create_variables cfg (generate_cours_from_config cfg)))) set_iter
             (solve (build_model cfg (generate_cours_from_config cfg)
                       (dict_keys (fst (create_variables cfg (generate_cours_from_config cfg)))))) \<and>
         (\<forall>c \<in> set (generate_cours_from_config cfg).
            fst (variables_cours cfg c) \<noteq> [] \<longrightarrow>
            (\<exists>ks. ExactlyOne ks
                     \<in> set (constraints
                              (build_model cfg (generate_cours_from_config cfg)
                                 (dict_keys (fst (create_variables cfg
                                                    (generate_cours_from_config cfg)))))) \<and>
                   set ks = set (fst (variables_cours cfg c))))"
proof -
  define cs where "cs = generate_cours_from_config cfg"
  define a where "a = dict_keys (fst (create_variables cfg cs))"
  have 0: "snd (create_variables cfg cs) = None" by (rule create_variables_no_error [OF v])
  have 1: "create_schedule_from_config (Some cfg) solve set_iter =
             apres_resolution cfg cs a set_iter (solve (build_model cfg cs a))"
    unfolding cs_def a_def by (rule run_apres_resolution [OF v])
  have 2: "\<forall>c \<in> set cs. fst (variables_cours cfg c) \<noteq> [] \<longrightarrow>
            (\<exists>ks. ExactlyOne ks \<in> set (constraints (build_model cfg cs a)) \<and>
                   set ks = set (fst (variables_cours cfg c)))"
  proof (intro ballI impI)
    fix c assume c: "c \<in> set cs" and n: "fst (variables_cours cfg c) \<noteq> []"
    obtain g m cid where cc: "c = (g, m, cid)" by (cases c)
    define ks where "ks = [key \<leftarrow> a. (case key of (g', m', cid', p, s, j, h) \<Rightarrow> cid' = cid)]"
    have s: "set ks = set (fst (variables_cours cfg c))"
      unfolding ks_def a_def cs_def cc
      using candidats_du_cours [OF v] c cc cs_def by blast
    then have "ks \<noteq> []" using n by (metis set_empty)
    then have "contrainte_cours a c = [ExactlyOne ks]"
      by (simp add: contrainte_cours_def cc ks_def Let_def)
    from contrainte_cours_dans_modele [OF c this] s
    show "\<exists>ks. ExactlyOne ks \<in> set (constraints (build_model cfg cs a)) \<and>
                   set ks = set (fst (variables_cours cfg c))" by blast
  qed
  show ?thesis
    unfolding cs_def [symmetric] a_def [symmetric] using 0 1 2 by (intro conjI)
qed

definition cfg_sans_candidat :: config where
  "cfg_sans_candidat =
     \<lparr>groupes_eleves = [\<lparr>nom = ''6A'', niveau = ''6e''\<rparr>],
      curriculum = [(''6e'', \<lparr>matieres_obligatoires = [(''Maths'', 1), (''Sport'', 1)]\<rparr>)],
      professeurs =
        [(''Dupont'', \<lparr>matieres_enseignees = [''Maths''],
                       contraintes = \<lparr>jours_indisponibles = [''Lundi''],
                                      heures_indisponibles = []\<rparr>\<rparr>),
         (''Martin'', \<lparr>matieres_enseignees = [''Sport''],
                       contraintes = \<lparr>jours_indisponibles = [],
                                      heures_indisponibles = []\<rparr>\<rparr>)],
      salles = [(''S1'', \<lparr>type_salle = ''standard'', capacite = Some 30, equipements = []\<rparr>)],
      matieres = [(''Maths'', \<lparr>salle_requise = ''standard''\<rparr>),
                  (''Sport'', \<lparr>salle_requise = ''standard''\<rparr>)],
      planning = \<lparr>jours = [''Lundi''], heures = [''8h'']\<rparr>\<rparr>"


theorem encodage_sans_erreur_witness:
  "validate_config cfg_sans_candidat = [] \<and>
   (''6A'', ''Sport'', 1) \<in> set (generate_cours_from_config cfg_sans_candidat) \<and>
   fst (variables_cours cfg_sans_candidat (''6A'', ''Sport'', 1)) \<noteq> [] \<and>
   (\<exists>ks. ExactlyOne ks
            \<in> set (constraints
                     (build_model cfg_sans_candidat (generate_cours_from_config cfg_sans_candidat)
                        (dict_keys (fst (create_variables cfg_sans_candidat
                                           (generate_cours_from_config cfg_sans_candidat)))))) \<and>
          set ks = set (fst (variables_cours cfg_sans_candidat (''6A'', ''Sport'', 1))))"
proof -
  have v: "validate_config cfg_sans_candidat = []" by code_simp
  have c: "(''6A'', ''Sport'', 1) \<in> set (generate_cours_from_config cfg_sans_candidat)"
    by code_simp
  have n: "fst (variables_cours cfg_sans_candidat (''6A'', ''Sport'', 1)) \<noteq> []"
    by code_simp
  show ?thesis
    using v c n encodage_sans_erreur [OF v] by blast
qed


text \<open>
  The claim as stated fails: the only teacher of Maths is unavailable on the only day, the
  course has no candidate, no error is raised, the solver is called and the function
  returns a timetable without that course, which \<open>verifier_solution\<close> then reports as one
  course short.
\<close>

theorem sans_candidat_counterexample:
  "validate_config cfg_sans_candidat = [] \<and>
   generate_cours_from_config cfg_sans_candidat =
     [(''6A'', ''Maths'', 0), (''6A'', ''Sport'', 1)] \<and>
   variables_cours cfg_sans_candidat (''6A'', ''Maths'', 0) = ([], None) \<and>
   create_variables cfg_sans_candidat (generate_cours_from_config cfg_sans_candidat) =
     ([(''6A'', ''Sport'', 1, ''Martin'', ''S1'', ''Lundi'', ''8h'')], None) \<and>
   constraints
     (build_model cfg_sans_candidat (generate_cours_from_config cfg_sans_candidat)
        (dict_keys (fst (create_variables cfg_sans_candidat
                           (generate_cours_from_config cfg_sans_candidat))))) =
     [ExactlyOne [(''6A'', ''Sport'', 1, ''Martin'', ''S1'', ''Lundi'', ''8h'')],
      AtMostOne [(''6A'', ''Sport'', 1, ''Martin'', ''S1'', ''Lundi'', ''8h'')],
      AtMostOne [(''6A'', ''Sport'', 1, ''Martin'', ''S1'', ''Lundi'', ''8h'')],
      AtMostOne [(''6A'', ''Sport'', 1, ''Martin'', ''S1'', ''Lundi'', ''8h'')]] \<and>
   map_sum id valeur_retournee
     (create_schedule_from_config (Some cfg_sans_candidat)
        (\<lambda>m. (OPTIMAL, \<lambda>k. True)) remdups) =
     Inr (Some [(''6A'', [(''Lundi'', ''8h'', ''Sport'', ''Martin'', ''S1'')])]) \<and>
   verifier_solution [(''6A'', [(''Lundi'', ''8h'', ''Sport'', ''Martin'', ''S1'')])]
     (generate_cours_from_config cfg_sans_candidat) cfg_sans_candidat =
     Inr (False, [Erreur_nombre 2 1])"
  by code_simp

section \<open>Dictionaries filled by a loop\<close>

text \<open>
  \<open>dd_add\<close>, \<open>dd_append\<close> and \<open>counter_add\<close> are three instances of one update of an
  association list: change the value of the key if it is there, add the key at the end
  otherwise.
\<close>

fun alist_upd :: "('v \<Rightarrow> 'v) \<Rightarrow> 'v \<Rightarrow> 'k \<Rightarrow> ('k \<times> 'v) list \<Rightarrow> ('k \<times> 'v) list" where
  "alist_upd f d0 k [] = [(k, d0)]"
| "alist_upd f d0 k ((k', v) # rest) =
     (if k = k' then (k', f v) # rest else (k', v) # alist_upd f d0 k rest)"

lemma dd_add_upd: "dd_add k v d = alist_upd (set_add v) [v] k d"
  by (induction d) auto

lemma dd_append_upd: "dd_append k v d = alist_upd (\<lambda>vs. vs @ [v]) [v] k d"
  by (induction d) auto

lemma counter_add_upd: "counter_add x d = alist_upd Suc 1 x d"
  by (induction d) auto

lemma keys_alist_upd:
  "map fst (alist_upd f d0 k d) = (if k \<in> set (map fst d) then map fst d else map fst d @ [k])"
proof (induction d)
  case Nil
  show ?case by simp
next
  case (Cons a d)
  obtain k' v where a: "a = (k', v)" by (cases a)
  show ?case using Cons by (cases "k = k'") (simp_all add: a)
qed

lemma map_of_alist_upd:
  "map_of (alist_upd f d0 k d) k' =
     (if k' = k then Some (case map_of d k of None \<Rightarrow> d0 | Some v \<Rightarrow> f v) else map_of d k')"
  by (induction d) auto

lemma distinct_alist_upd:
  "distinct (map fst d) \<Longrightarrow> distinct (map fst (alist_upd f d0 k d))"
  by (simp add: keys_alist_upd)

lemma dict_keys_snoc:
  "dict_keys (xs @ [x]) = (if x \<in> set xs then dict_keys xs else dict_keys xs @ [x])"
  by (simp add: dict_keys_def)

lemma dict_keys_Nil: "[] = dict_keys xs \<longleftrightarrow> xs = []"
  by (auto simp: dict_keys_def)

lemma distinct_dict_keys: "distinct (dict_keys xs)"
  by (simp add: dict_keys_def)

lemma set_dict_keys2: "set (dict_keys xs) = set xs"
  by (simp add: dict_keys_def)

text \<open>Grouping key/value pairs into a dictionary of sets.\<close>

definition grouper_set :: "('k \<times> 'v) list \<Rightarrow> ('k \<times> 'v list) list" where
  "grouper_set kvs = foldl (\<lambda>d (k, v). dd_add k v d) [] kvs"

lemma grouper_set_snoc:
  "grouper_set (kvs @ [(k, v)]) = dd_add k v (grouper_set kvs)"
  by (simp add: grouper_set_def)

lemma keys_grouper_set: "map fst (grouper_set kvs) = dict_keys (map fst kvs)"
proof (induction kvs rule: rev_induct)
  case Nil
  show ?case by (simp add: grouper_set_def dict_keys_def)
next
  case (snoc kv kvs)
  obtain k v where kv: "kv = (k, v)" by (cases kv)
  have "set (map fst (grouper_set kvs)) = set (map fst kvs)"
    by (simp only: snoc set_dict_keys2)
  then show ?case
    by (simp add: kv grouper_set_snoc dd_add_upd keys_alist_upd dict_keys_snoc snoc
             del: set_map)
qed

lemma values_grouper_set:
  "(case map_of (grouper_set kvs) k of None \<Rightarrow> [] | Some vs \<Rightarrow> vs) =
     dict_keys (map snd (filter (\<lambda>kv. fst kv = k) kvs))"
proof (induction kvs rule: rev_induct)
  case Nil
  show ?case by (simp add: grouper_set_def dict_keys_def)
next
  case (snoc kv kvs)
  obtain k' v where kv: "kv = (k', v)" by (cases kv)
  show ?case
  proof (cases "k' = k")
    case False
    then show ?thesis
      using snoc by (simp add: kv grouper_set_snoc dd_add_upd map_of_alist_upd)
  next
    case True
    have "set_add v (dict_keys xs) = dict_keys (xs @ [v])" for xs
      by (simp add: set_add_def dict_keys_snoc set_dict_keys2)
    then show ?thesis
      using snoc True
      by (simp add: kv grouper_set_snoc dd_add_upd map_of_alist_upd dict_keys_Nil
               split: option.splits)
        (simp add: dict_keys_def)
  qed
qed

lemma salles_occupees_grouper:
  "salles_occupees solution =
     grouper_set (map (\<lambda>(groupe, jour, heure, matiere, prof, salle). ((jour, heure), salle))
                      (entrees solution))"
proof -
  have "foldl (\<lambda>d ge. (case ge of (groupe, jour, heure, matiere, prof, salle) \<Rightarrow>
                       dd_add (jour, heure) salle d)) d0 es =
        foldl (\<lambda>d (k, v). dd_add k v d) d0
          (map (\<lambda>(groupe, jour, heure, matiere, prof, salle). ((jour, heure), salle)) es)"
    for d0 :: "(creneau \<times> string list) list" and es :: "(string \<times> entry) list"
    by (induction es arbitrary: d0) (auto simp: split_def)
  then show ?thesis by (simp add: salles_occupees_def grouper_set_def)
qed

lemma map_err_Inr:
  assumes "map_err f xs = Inr ys" "x \<in> set xs"
  shows "\<exists>y. f x = Inr y"
  using assms
proof (induction xs arbitrary: ys)
  case Nil
  then show ?case by simp
next
  case (Cons a xs)
  then show ?case
    by (cases "f a"; cases "map_err f xs") auto
qed

section \<open>The free rooms of a slot\<close>

lemma salles_creneau_complement:
  assumes "salles_creneau cfg (salles_occupees solution) c = Inr (occ, libres)"
  shows "set libres = set (map fst (salles cfg)) - set occ \<and>
         set occ \<inter> set libres = {} \<and>
         set occ \<union> set libres = set (map fst (salles cfg)) \<and>
         set occ = set (get_occupees (salles_occupees solution) c)"
proof -
  define oc where "oc = get_occupees (salles_occupees solution) c"
  from assms obtain infos where
    m: "map_err (lookup (salles cfg)) (sort oc) = Inr infos"
    and occ: "occ = sort oc"
    and l: "libres = sort [s \<leftarrow> remdups (map fst (salles cfg)). s \<notin> set oc]"
    unfolding salles_creneau_def Let_def oc_def [symmetric]
    by (cases "map_err (lookup (salles cfg)) (sort oc)") auto
  have "set oc \<subseteq> set (map fst (salles cfg))"
  proof
    fix s assume "s \<in> set oc"
    then have "s \<in> set (sort oc)" by simp
    from map_err_Inr [OF m this] obtain y where "lookup (salles cfg) s = Inr y" ..
    then have "map_of (salles cfg) s \<noteq> None"
      by (auto simp: lookup_def split: option.splits)
    then show "s \<in> set (map fst (salles cfg))"
      by (simp add: map_of_eq_None_iff)
  qed
  then show ?thesis
    unfolding occ l oc_def [symmetric] by auto
qed

definition sol_exemple :: solution where
  "sol_exemple =
     [(''6A'', [(''Lundi'', ''9h'', ''Maths'', ''Dupont'', ''S1'')]),
      (''6B'', [(''Lundi'', ''8h'', ''Maths'', ''Dupont'', ''S1'')])]"

section \<open>Claims on the busiest and the quietest slot\<close>

text \<open>
  The pairs (slot, room) of the entries of a solution, in the order the loops visit them,
  and the number of distinct rooms used in a slot.
\<close>

definition creneaux_salles :: "solution \<Rightarrow> (creneau \<times> string) list" where
  "creneaux_salles solution =
     map (\<lambda>(groupe, jour, heure, matiere, prof, salle). ((jour, heure), salle))
         (entrees solution)"

definition compte_creneau :: "solution \<Rightarrow> creneau \<Rightarrow> nat" where
  "compte_creneau solution c =
     length (remdups (map snd (filter (\<lambda>kv. fst kv = c) (creneaux_salles solution))))"

text \<open>
  The selection the specification describes: among the slots of the grid with the
  extremal count, the first one in day-then-hour order.
\<close>

definition premier_de_la_grille ::
  "config \<Rightarrow> solution \<Rightarrow> (nat \<Rightarrow> nat \<Rightarrow> bool) \<Rightarrow> (creneau \<times> nat) option" where
  "premier_de_la_grille cfg solution ord =
     map_option (\<lambda>c. (c, compte_creneau solution c))
       (List.find (\<lambda>c. list_all (\<lambda>c'. ord (compte_creneau solution c')
                                           (compte_creneau solution c)) (grille cfg))
                  (grille cfg))"

lemma py_max_first:
  "\<exists>pre post. b # xs = pre @ py_max f b xs # post \<and>
     (\<forall>y \<in> set pre. f y < f (py_max f b xs)) \<and>
     (\<forall>y \<in> set post. f y \<le> f (py_max f b xs))"
proof (induction xs arbitrary: b)
  case Nil
  have "[b] = [] @ b # [] \<and> (\<forall>y \<in> set []. f y < f b) \<and>
        (\<forall>y \<in> set []. f y \<le> f b)" by simp
  then show ?case unfolding py_max.simps by blast
next
  case (Cons x xs)
  show ?case
  proof (cases "f b < f x")
    case True
    then have r: "py_max f b (x # xs) = py_max f x xs" by simp
    from Cons [of x] obtain pre post where
      e: "x # xs = pre @ py_max f x xs # post"
      and p: "\<forall>y \<in> set pre. f y < f (py_max f x xs)"
      and q: "\<forall>y \<in> set post. f y \<le> f (py_max f x xs)" by blast
    have "f x \<le> f (py_max f x xs)"
    proof (cases pre)
      case Nil
      from e [unfolded Nil append_Nil] have "py_max f x xs = x" by (metis list.inject)
      then show ?thesis by simp
    next
      case (Cons a list)
      from e [unfolded Cons append_Cons] have "a = x" by (metis list.inject)
      with p Cons show ?thesis by auto
    qed
    with True have "f b < f (py_max f x xs)" by simp
    with e p q have "b # x # xs = (b # pre) @ py_max f x xs # post \<and>
        (\<forall>y \<in> set (b # pre). f y < f (py_max f x xs)) \<and>
        (\<forall>y \<in> set post. f y \<le> f (py_max f x xs))" by simp
    then show ?thesis unfolding r by blast
  next
    case False
    then have r: "py_max f b (x # xs) = py_max f b xs" by simp
    from Cons [of b] obtain pre post where
      e: "b # xs = pre @ py_max f b xs # post"
      and p: "\<forall>y \<in> set pre. f y < f (py_max f b xs)"
      and q: "\<forall>y \<in> set post. f y \<le> f (py_max f b xs)" by blast
    show ?thesis
    proof (cases pre)
      case Nil
      from e [unfolded Nil append_Nil]
      have b: "py_max f b xs = b" and po: "xs = post" by (metis list.inject)+
      from q False b po have "b # x # xs = [] @ py_max f b xs # (x # xs) \<and>
          (\<forall>y \<in> set []. f y < f (py_max f b xs)) \<and>
          (\<forall>y \<in> set (x # xs). f y \<le> f (py_max f b xs))" by simp
      then show ?thesis unfolding r by blast
    next
      case (Cons a pre')
      from e [unfolded Cons append_Cons]
      have a: "a = b" and xs: "xs = pre' @ py_max f b xs # post" by (metis list.inject)+
      from p Cons a have "f b < f (py_max f b xs)" by simp
      with False have "f x < f (py_max f b xs)" by simp
      with p q Cons a have "(\<forall>y \<in> set (b # x # pre'). f y < f (py_max f b xs)) \<and>
          (\<forall>y \<in> set post. f y \<le> f (py_max f b xs))" by simp
      moreover have "b # x # xs = (b # x # pre') @ py_max f b xs # post"
        using xs by simp
      ultimately show ?thesis unfolding r by blast
    qed
  qed
qed

lemma py_min_first:
  "\<exists>pre post. b # xs = pre @ py_min f b xs # post \<and>
     (\<forall>y \<in> set pre. f (py_min f b xs) < f y) \<and>
     (\<forall>y \<in> set post. f (py_min f b xs) \<le> f y)"
proof (induction xs arbitrary: b)
  case Nil
  have "[b] = [] @ b # [] \<and> (\<forall>y \<in> set []. f b < f y) \<and>
        (\<forall>y \<in> set []. f b \<le> f y)" by simp
  then show ?case unfolding py_min.simps by blast
next
  case (Cons x xs)
  show ?case
  proof (cases "f x < f b")
    case True
    then have r: "py_min f b (x # xs) = py_min f x xs" by simp
    from Cons [of x] obtain pre post where
      e: "x # xs = pre @ py_min f x xs # post"
      and p: "\<forall>y \<in> set pre. f (py_min f x xs) < f y"
      and q: "\<forall>y \<in> set post. f (py_min f x xs) \<le> f y" by blast
    have "f (py_min f x xs) \<le> f x"
    proof (cases pre)
      case Nil
      from e [unfolded Nil append_Nil] have "py_min f x xs = x" by (metis list.inject)
      then show ?thesis by simp
    next
      case (Cons a list)
      from e [unfolded Cons append_Cons] have "a = x" by (metis list.inject)
      with p Cons show ?thesis by auto
    qed
    with True have "f (py_min f x xs) < f b" by simp
    with e p q have "b # x # xs = (b # pre) @ py_min f x xs # post \<and>
        (\<forall>y \<in> set (b # pre). f (py_min f x xs) < f y) \<and>
        (\<forall>y \<in> set post. f (py_min f x xs) \<le> f y)" by simp
    then show ?thesis unfolding r by blast
  next
    case False
    then have r: "py_min f b (x # xs) = py_min f b xs" by simp
    from Cons [of b] obtain pre post where
      e: "b # xs = pre @ py_min f b xs # post"
      and p: "\<forall>y \<in> set pre. f (py_min f b xs) < f y"
      and q: "\<forall>y \<in> set post. f (py_min f b xs) \<le> f y" by blast
    show ?thesis
    proof (cases pre)
      case Nil
      from e [unfolded Nil append_Nil]
      have b: "py_min f b xs = b" and po: "xs = post" by (metis list.inject)+
      from q False b po have "b # x # xs = [] @ py_min f b xs # (x # xs) \<and>
          (\<forall>y \<in> set []. f (py_min f b xs) < f y) \<and>
          (\<forall>y \<in> set (x # xs). f (py_min f b xs) \<le> f y)" by simp
      then show ?thesis unfolding r by blast
    next
      case (Cons a pre')
      from e [unfolded Cons append_Cons]
      have a: "a = b" and xs: "xs = pre' @ py_min f b xs # post" by (metis list.inject)+
      from p Cons a have "f (py_min f b xs) < f b" by simp
      with False have "f (py_min f b xs) < f x" by simp
      with p q Cons a have "(\<forall>y \<in> set (b # x # pre'). f (py_min f b xs) < f y) \<and>
          (\<forall>y \<in> set post. f (py_min f b xs) \<le> f y)" by simp
      moreover have "b # x # xs = (b # x # pre') @ py_min f b xs # post"
        using xs by simp
      ultimately show ?thesis unfolding r by blast
    qed
  qed
qed

lemma length_dict_keys: "length (dict_keys xs) = length (remdups xs)"
proof -
  have "length (dict_keys xs) = card (set xs)"
    unfolding dict_keys_def by (simp add: length_remdups_card_conv)
  then show ?thesis by (simp add: length_remdups_card_conv)
qed

lemma creneaux_salles_occupees:
  "salles_occupees solution = grouper_set (creneaux_salles solution)"
  by (simp add: salles_occupees_grouper creneaux_salles_def)

lemma occupation_par_creneau_keys:
  "map fst (occupation_par_creneau (salles_occupees solution)) =
     dict_keys (map fst (creneaux_salles solution))"
  by (simp add: occupation_par_creneau_def creneaux_salles_occupees keys_grouper_set [symmetric]
                split_def comp_def)

lemma occupation_par_creneau_compte:
  assumes "(c, n) \<in> set (occupation_par_creneau (salles_occupees solution))"
  shows "n = compte_creneau solution c"
proof -
  from assms obtain occ where o: "(c, occ) \<in> set (salles_occupees solution)" and n: "n = length occ"
    by (auto simp: occupation_par_creneau_def)
  have "distinct (map fst (salles_occupees solution))"
    by (simp add: creneaux_salles_occupees keys_grouper_set distinct_dict_keys)
  with o have "map_of (salles_occupees solution) c = Some occ" by simp
  with values_grouper_set [of "creneaux_salles solution" c]
  have "occ = dict_keys (map snd (filter (\<lambda>kv. fst kv = c) (creneaux_salles solution)))"
    by (simp add: creneaux_salles_occupees)
  with n show ?thesis by (simp add: compte_creneau_def length_dict_keys)
qed

text \<open>
  Claim C7, as amended. The busiest and the quietest slot are chosen among the slots that
  hold at least one entry of the solution (none is reported for a solution without
  entries), by their number of distinct occupied rooms; the slots are gone through in the
  order they are first met in the solution (group by group, entry by entry), and among
  the slots with the extremal count the first one met is reported.
\<close>

theorem creneaux_extremes_premiere_rencontre:
  "map fst (occupation_par_creneau (salles_occupees solution)) =
     dict_keys (map fst (creneaux_salles solution)) \<and>
   (\<forall>cn \<in> set (occupation_par_creneau (salles_occupees solution)).
      snd cn = compte_creneau solution (fst cn)) \<and>
   (creneau_max (occupation_par_creneau (salles_occupees solution)) = None
      \<longleftrightarrow> entrees solution = []) \<and>
   (creneau_min (occupation_par_creneau (salles_occupees solution)) = None
      \<longleftrightarrow> entrees solution = []) \<and>
   (\<forall>x. creneau_max (occupation_par_creneau (salles_occupees solution)) = Some x \<longrightarrow>
      (\<exists>pre post. occupation_par_creneau (salles_occupees solution) = pre @ x # post \<and>
         (\<forall>y \<in> set pre. snd y < snd x) \<and> (\<forall>y \<in> set post. snd y \<le> snd x))) \<and>
   (\<forall>x. creneau_min (occupation_par_creneau (salles_occupees solution)) = Some x \<longrightarrow>
      (\<exists>pre post. occupation_par_creneau (salles_occupees solution) = pre @ x # post \<and>
         (\<forall>y \<in> set pre. snd x < snd y) \<and> (\<forall>y \<in> set post. snd x \<le> snd y)))"
proof -
  define opc where "opc = occupation_par_creneau (salles_occupees solution)"
  have k: "map fst opc = dict_keys (map fst (creneaux_salles solution))"
    unfolding opc_def by (rule occupation_par_creneau_keys)
  have n: "\<forall>cn \<in> set opc. snd cn = compte_creneau solution (fst cn)"
    unfolding opc_def using occupation_par_creneau_compte by (metis prod.collapse)
  have "opc = [] \<longleftrightarrow> entrees solution = []"
  proof -
    have "opc = [] \<longleftrightarrow> map fst opc = []" by simp
    also have "\<dots> \<longleftrightarrow> map fst (creneaux_salles solution) = []"
      unfolding k using dict_keys_Nil [of "map fst (creneaux_salles solution)"] by metis
    also have "\<dots> \<longleftrightarrow> entrees solution = []" by (simp add: creneaux_salles_def)
    finally show ?thesis .
  qed
  moreover have "creneau_max opc = None \<longleftrightarrow> opc = []"
    and "creneau_min opc = None \<longleftrightarrow> opc = []"
    by (cases opc; simp add: creneau_max_def creneau_min_def)+
  ultimately have e1: "creneau_max opc = None \<longleftrightarrow> entrees solution = []"
    and e2: "creneau_min opc = None \<longleftrightarrow> entrees solution = []"
    by simp_all
  have mx: "\<forall>x. creneau_max opc = Some x \<longrightarrow>
      (\<exists>pre post. opc = pre @ x # post \<and>
         (\<forall>y \<in> set pre. snd y < snd x) \<and> (\<forall>y \<in> set post. snd y \<le> snd x))"
  proof (intro allI impI)
    fix x assume "creneau_max opc = Some x"
    then obtain b xs where o: "opc = b # xs" and x: "x = py_max snd b xs"
      by (auto simp: creneau_max_def split: list.splits)
    show "\<exists>pre post. opc = pre @ x # post \<and>
         (\<forall>y \<in> set pre. snd y < snd x) \<and> (\<forall>y \<in> set post. snd y \<le> snd x)"
      unfolding o x by (rule py_max_first)
  qed
  have mn: "\<forall>x. creneau_min opc = Some x \<longrightarrow>
      (\<exists>pre post. opc = pre @ x # post \<and>
         (\<forall>y \<in> set pre. snd x < snd y) \<and> (\<forall>y \<in> set post. snd x \<le> snd y))"
  proof (intro allI impI)
    fix x assume "creneau_min opc = Some x"
    then obtain b xs where o: "opc = b # xs" and x: "x = py_min snd b xs"
      by (auto simp: creneau_min_def split: list.splits)
    show "\<exists>pre post. opc = pre @ x # post \<and>
         (\<forall>y \<in> set pre. snd x < snd y) \<and> (\<forall>y \<in> set post. snd x \<le> snd y)"
      unfolding o x by (rule py_min_first)
  qed
  show ?thesis
    unfolding opc_def [symmetric] using k n e1 e2 mx mn by (intro conjI)
qed

definition cfg_deux_jours :: config where
  "cfg_deux_jours =
     \<lparr>groupes_eleves = [\<lparr>nom = ''6A'', niveau = ''6e''\<rparr>, \<lparr>nom = ''6B'', niveau = ''6e''\<rparr>],
      curriculum = [(''6e'', \<lparr>matieres_obligatoires = [(''Maths'', 1)]\<rparr>)],
      professeurs =
        [(''Dupont'', \<lparr>matieres_enseignees = [''Maths''],
                       contraintes = \<lparr>jours_indisponibles = [],
                                      heures_indisponibles = []\<rparr>\<rparr>)],
      salles = [(''S1'', \<lparr>type_salle = ''standard'', capacite = Some 30, equipements = []\<rparr>)],
      matieres = [(''Maths'', \<lparr>salle_requise = ''standard''\<rparr>)],
      planning = \<lparr>jours = [''Lundi'', ''Mardi''], heures = [''8h'', ''9h'']\<rparr>\<rparr>"

definition sol_mardi_lundi :: solution where
  "sol_mardi_lundi =
     [(''6A'', [(''Mardi'', ''8h'', ''Maths'', ''Dupont'', ''S1'')]),
      (''6B'', [(''Lundi'', ''8h'', ''Maths'', ''Dupont'', ''S1'')])]"

theorem creneaux_extremes_premiere_rencontre_witness:
  "creneau_max (occupation_par_creneau (salles_occupees sol_mardi_lundi)) =
     Some ((''Mardi'', ''8h''), 1) \<and>
   (\<exists>pre post.
      occupation_par_creneau (salles_occupees sol_mardi_lundi) =
        pre @ ((''Mardi'', ''8h''), 1) # post \<and>
      (\<forall>y \<in> set pre. snd y < 1) \<and> (\<forall>y \<in> set post. snd y \<le> 1))"
proof -
  have e: "creneau_max (occupation_par_creneau (salles_occupees sol_mardi_lundi)) =
     Some ((''Mardi'', ''8h''), 1)"
    by code_simp
  show ?thesis
    using e creneaux_extremes_premiere_rencontre [of sol_mardi_lundi] by fastforce
qed

text \<open>
  The claim as stated fails on a solution the program decodes itself: the first group has
  its course on Tuesday, the second on Monday. Both slots hold one room; the source
  reports Tuesday 8h as the busiest and as the quietest slot, where the first slot of the
  grid in day-then-hour order is Monday 8h among the busiest and Monday 9h (no room) among
  the quietest.
\<close>

theorem creneaux_extremes_counterexample:
  "decode (List.member [(''6A'', ''Maths'', 0, ''Dupont'', ''S1'', ''Mardi'', ''8h''),
                        (''6B'', ''Maths'', 1, ''Dupont'', ''S1'', ''Lundi'', ''8h'')])
          (dict_keys (fst (create_variables cfg_deux_jours
                             (generate_cours_from_config cfg_deux_jours)))) = sol_mardi_lundi \<and>
   creneau_max (occupation_par_creneau (salles_occupees sol_mardi_lundi)) =
     Some ((''Mardi'', ''8h''), 1) \<and>
   premier_de_la_grille cfg_deux_jours sol_mardi_lundi (\<le>) = Some ((''Lundi'', ''8h''), 1) \<and>
   creneau_min (occupation_par_creneau (salles_occupees sol_mardi_lundi)) =
     Some ((''Mardi'', ''8h''), 1) \<and>
   premier_de_la_grille cfg_deux_jours sol_mardi_lundi (\<ge>) = Some ((''Lundi'', ''9h''), 0)"
  by code_simp



section \<open>Claims on the occupancy rates\<close>

text \<open>
  The entries of a solution lie in the grid of the configuration when each uses a day of
  \<open>jours\<close>, an hour of \<open>heures\<close> and a room of \<open>salles\<close>.
\<close>

definition dans_la_grille :: "config \<Rightarrow> solution \<Rightarrow> bool" where
  "dans_la_grille cfg solution =
     list_all (\<lambda>(groupe, jour, heure, matiere, prof, salle).
                 jour \<in> set (jours (planning cfg)) \<and> heure \<in> set (heures (planning cfg)) \<and>
                 salle \<in> set (map fst (salles cfg)))
              (entrees solution)"

lemma length_grille: "length (grille cfg) = total_creneaux cfg"
proof -
  have "length (concat (map (\<lambda>j. map (Pair j) hs) js)) = length js * length hs"
    for js hs :: "string list"
    by (induction js) simp_all
  then show ?thesis by (simp add: grille_def total_creneaux_def)
qed

lemma set_grille: "set (grille cfg) = set (jours (planning cfg)) \<times> set (heures (planning cfg))"
  by (auto simp: grille_def)

lemma dans_la_grille_creneaux:
  assumes "dans_la_grille cfg solution" "(c, s) \<in> set (creneaux_salles solution)"
  shows "c \<in> set (grille cfg) \<and> s \<in> set (map fst (salles cfg))"
proof -
  from assms(2) obtain g j h m p where e: "(g, j, h, m, p, s) \<in> set (entrees solution)"
    and c: "c = (j, h)"
    by (auto simp: creneaux_salles_def)
  from assms(1) e have "j \<in> set (jours (planning cfg)) \<and> h \<in> set (heures (planning cfg)) \<and>
                 s \<in> set (map fst (salles cfg))"
    unfolding dans_la_grille_def list_all_iff by fast
  then show ?thesis by (simp add: c set_grille)
qed

lemma salles_occupees_distinct: "distinct (map fst (salles_occupees solution))"
  by (simp add: creneaux_salles_occupees keys_grouper_set distinct_dict_keys)

lemma salles_occupees_value:
  assumes "(c, occ) \<in> set (salles_occupees solution)"
  shows "occ = dict_keys (map snd (filter (\<lambda>kv. fst kv = c) (creneaux_salles solution)))"
proof -
  from assms salles_occupees_distinct have "map_of (salles_occupees solution) c = Some occ"
    by simp
  with values_grouper_set [of "creneaux_salles solution" c] show ?thesis
    by (simp add: creneaux_salles_occupees)
qed

lemma salles_occupees_set:
  assumes "(c, occ) \<in> set (salles_occupees solution)"
  shows "set occ = {s. (c, s) \<in> set (creneaux_salles solution)}" and "distinct occ"
    and "length occ = compte_creneau solution c"
proof -
  note v = salles_occupees_value [OF assms]
  show "set occ = {s. (c, s) \<in> set (creneaux_salles solution)}"
    unfolding v set_dict_keys2 by force
  show "distinct occ" unfolding v by (rule distinct_dict_keys)
  show "length occ = compte_creneau solution c"
    unfolding v by (simp add: length_dict_keys compte_creneau_def)
qed

lemma salles_occupees_keys:
  "set (map fst (salles_occupees solution)) = set (map fst (creneaux_salles solution))"
  by (simp add: creneaux_salles_occupees keys_grouper_set set_dict_keys2 del: set_map)

lemma foldl_incr:
  "foldl (\<lambda>f salle. f(salle := Suc (f salle))) f occ s = f s + count_list occ s"
  for f :: "string \<Rightarrow> nat"
  by (induction occ arbitrary: f) auto

lemma occupation_par_salle_sum:
  "occupation_par_salle so s = sum_list (map (\<lambda>(c, occ). count_list occ s) so)"
proof -
  have "foldl (\<lambda>f (c, salles_occ). foldl (\<lambda>f salle. f(salle := f salle + 1)) f salles_occ) f so s
        = f s + sum_list (map (\<lambda>(c, occ). count_list occ s) so)"
    for f :: "string \<Rightarrow> nat"
    by (induction so arbitrary: f) (auto simp: foldl_incr)
  then show ?thesis by (simp add: occupation_par_salle_def)
qed

lemma sum_list_le_length:
  assumes "\<And>x. x \<in> set xs \<Longrightarrow> f x \<le> (k::nat)"
  shows "sum_list (map f xs) \<le> length xs * k"
  using assms by (induction xs) (auto simp: add_le_mono)

lemma count_list_distinct: "distinct xs \<Longrightarrow> count_list xs x \<le> Suc 0"
  by (induction xs) auto

lemma length_salles_occupees:
  assumes "dans_la_grille cfg solution"
  shows "length (salles_occupees solution) \<le> total_creneaux cfg"
proof -
  have "length (salles_occupees solution) = card (set (map fst (salles_occupees solution)))"
    using salles_occupees_distinct [of solution] by (metis distinct_card length_map)
  also have "\<dots> \<le> card (set (grille cfg))"
  proof (rule card_mono)
    show "set (map fst (salles_occupees solution)) \<subseteq> set (grille cfg)"
      unfolding salles_occupees_keys using dans_la_grille_creneaux [OF assms] by auto
  qed simp
  also have "\<dots> \<le> total_creneaux cfg"
    using card_length [of "grille cfg"] by (simp add: length_grille)
  finally show ?thesis .
qed

lemma occupation_par_salle_le:
  assumes "dans_la_grille cfg solution"
  shows "occupation_par_salle (salles_occupees solution) s \<le> total_creneaux cfg"
proof -
  have "occupation_par_salle (salles_occupees solution) s \<le> length (salles_occupees solution) * 1"
    unfolding occupation_par_salle_sum
  proof (rule sum_list_le_length)
    fix x assume "x \<in> set (salles_occupees solution)"
    then have "distinct (snd x)" using salles_occupees_set(2) [of "fst x" "snd x"] by simp
    then show "(case x of (c, occ) \<Rightarrow> count_list occ s) \<le> 1"
      by (simp add: split_def count_list_distinct)
  qed
  with length_salles_occupees [OF assms] show ?thesis by simp
qed

lemma total_occupations_le:
  assumes "dans_la_grille cfg solution"
  shows "total_occupations (salles_occupees solution) \<le> total_creneaux cfg * total_salles cfg"
proof -
  have "total_occupations (salles_occupees solution)
          \<le> length (salles_occupees solution) * total_salles cfg"
    unfolding total_occupations_def
  proof (rule sum_list_le_length)
    fix x assume x: "x \<in> set (salles_occupees solution)"
    then have d: "distinct (snd x)" and s: "set (snd x) = {s. (fst x, s) \<in> set (creneaux_salles solution)}"
      using salles_occupees_set [of "fst x" "snd x"] by simp_all
    have "set (snd x) \<subseteq> set (map fst (salles cfg))"
      unfolding s using dans_la_grille_creneaux [OF assms] by blast
    then have "card (set (snd x)) \<le> card (set (map fst (salles cfg)))"
      by (intro card_mono) simp_all
    also have "\<dots> \<le> total_salles cfg"
      using card_length [of "map fst (salles cfg)"] by (simp add: total_salles_def)
    finally show "(case x of (c, salles_occ) \<Rightarrow> length salles_occ) \<le> total_salles cfg"
      using d by (simp add: split_def distinct_card)
  qed
  also have "\<dots> \<le> total_creneaux cfg * total_salles cfg"
    using length_salles_occupees [OF assms] by simp
  finally show ?thesis .
qed

lemma total_occupations_sum:
  "total_occupations (salles_occupees solution) =
     (\<Sum>c \<in> set (map fst (creneaux_salles solution)). compte_creneau solution c)"
proof -
  have "total_occupations (salles_occupees solution) =
          sum_list (map (\<lambda>c. compte_creneau solution c) (map fst (salles_occupees solution)))"
    unfolding total_occupations_def map_map
  proof (rule arg_cong [where f = sum_list], rule map_cong [OF refl])
    fix x assume "x \<in> set (salles_occupees solution)"
    then show "(case x of (c, salles_occ) \<Rightarrow> length salles_occ) =
               (compte_creneau solution \<circ> fst) x"
      using salles_occupees_set(3) [of "fst x" "snd x"] by (simp add: split_def)
  qed
  also have "\<dots> = (\<Sum>c \<in> set (map fst (salles_occupees solution)). compte_creneau solution c)"
    using salles_occupees_distinct [of solution] by (rule sum_list_distinct_conv_sum_set)
  finally show ?thesis unfolding salles_occupees_keys .
qed

lemma compte_creneau_card:
  "compte_creneau solution c = card {s. (c, s) \<in> set (creneaux_salles solution)}"
proof -
  have "set (map snd (filter (\<lambda>kv. fst kv = c) (creneaux_salles solution))) =
        {s. (c, s) \<in> set (creneaux_salles solution)}"
    by force
  then show ?thesis
    unfolding compte_creneau_def length_remdups_card_conv by simp
qed

lemma total_occupations_card:
  "total_occupations (salles_occupees solution) = card (set (creneaux_salles solution))"
proof -
  define K where "K = set (creneaux_salles solution)"
  have f: "finite K" by (simp add: K_def)
  have "K = (SIGMA c:fst ` K. {s. (c, s) \<in> K})" by force
  then have "card K = card (SIGMA c:fst ` K. {s. (c, s) \<in> K})" by simp
  also have "\<dots> = (\<Sum>c \<in> fst ` K. card {s. (c, s) \<in> K})"
  proof (rule card_SigmaI)
    show "finite (fst ` K)" using f by simp
    show "\<forall>a\<in>fst ` K. finite {s. (a, s) \<in> K}"
    proof
      fix a
      have "{s. (a, s) \<in> K} \<subseteq> snd ` K" by force
      then show "finite {s. (a, s) \<in> K}" using f by (meson finite_imageI finite_subset)
    qed
  qed
  finally show ?thesis
    unfolding total_occupations_sum K_def by (simp add: compte_creneau_card)
qed

lemma taux_bornes:
  assumes "n \<le> d" "0 < d"
  shows "\<exists>t. taux n d = Inr t \<and> 0 \<le> t \<and> t \<le> 100"
proof -
  have "real n / real d \<le> 1" using assms by simp
  then have "real n / real d * 100 \<le> 1 * 100" by (rule mult_right_mono) simp
  then have "real n / real d * 100 \<le> 100" by (simp del: times_divide_eq_left)
  moreover have "0 \<le> real n / real d * 100" by simp
  ultimately show ?thesis using assms(2) by (simp add: taux_def)
qed

lemma taux_bornes_dans_la_grille:
  assumes g: "dans_la_grille cfg solution"
    and j: "jours (planning cfg) \<noteq> []" and h: "heures (planning cfg) \<noteq> []"
    and s: "salles cfg \<noteq> []"
  shows "(\<forall>salle. \<exists>t. taux_salle cfg (salles_occupees solution) salle =
                        Inr (salle, occupation_par_salle (salles_occupees solution) salle, t) \<and>
                      0 \<le> t \<and> t \<le> 100) \<and>
         (\<exists>t. taux_global cfg (salles_occupees solution) = Inr t \<and> 0 \<le> t \<and> t \<le> 100) \<and>
         total_occupations (salles_occupees solution) =
           (\<Sum>c \<in> set (map fst (creneaux_salles solution)). compte_creneau solution c) \<and>
         total_occupations (salles_occupees solution) = card (set (creneaux_salles solution))"
proof -
  have tc: "0 < total_creneaux cfg" using j h by (simp add: total_creneaux_def)
  have ts: "0 < total_salles cfg" using s by (simp add: total_salles_def)
  have 1: "\<forall>salle. \<exists>t. taux_salle cfg (salles_occupees solution) salle =
                        Inr (salle, occupation_par_salle (salles_occupees solution) salle, t) \<and>
                      0 \<le> t \<and> t \<le> 100"
  proof
    fix salle
    from taux_bornes [OF occupation_par_salle_le [OF g, of salle] tc]
    obtain t where "taux (occupation_par_salle (salles_occupees solution) salle)
                      (total_creneaux cfg) = Inr t" "0 \<le> t" "t \<le> 100" by blast
    then show "\<exists>t. taux_salle cfg (salles_occupees solution) salle =
                        Inr (salle, occupation_par_salle (salles_occupees solution) salle, t) \<and>
                      0 \<le> t \<and> t \<le> 100"
      by (simp add: taux_salle_def Let_def)
  qed
  have 2: "\<exists>t. taux_global cfg (salles_occupees solution) = Inr t \<and> 0 \<le> t \<and> t \<le> 100"
    unfolding taux_global_def
    by (rule taux_bornes [OF total_occupations_le [OF g]]) (simp add: tc ts)
  show ?thesis
    using 1 2 total_occupations_sum [of solution] total_occupations_card [of solution]
    by (intro conjI)
qed


section \<open>The solutions the program decodes\<close>

text \<open>
  \<open>afficher_salles_libres\<close> and \<open>verifier_solution\<close> are called on the solution decoded
  from the variables (lines 222 to 241). Whatever the solver answers, every entry of that
  solution comes from a created variable: its day and hour are of the grid, and its
  teacher, room and subject are keys of the configuration.
\<close>

lemma variables_salle_grille:
  assumes "k \<in> set (fst (variables_salle cfg pinfo (g, m, cid) prof salle))"
  shows "\<exists>j h. k = (g, m, cid, prof, salle, j, h) \<and>
           j \<in> set (jours (planning cfg)) \<and> h \<in> set (heures (planning cfg))"
proof -
  have "k \<in> set (variables_jours cfg pinfo (g, m, cid) prof salle)"
    using assms
    by (auto simp: variables_salle_def split: option.splits if_splits)
  then show ?thesis using variables_jours_set [of k cfg pinfo g m cid prof salle] by blast
qed

lemma variables_prof_grille:
  assumes "k \<in> set (fst (variables_prof cfg (g, m, cid) prof))"
  shows "\<exists>s j h. k = (g, m, cid, prof, s, j, h) \<and>
           j \<in> set (jours (planning cfg)) \<and> h \<in> set (heures (planning cfg))"
proof (cases "map_of (professeurs cfg) prof")
  case None
  with assms show ?thesis by (simp add: variables_prof_def)
next
  case (Some pinfo)
  show ?thesis
  proof (cases "m \<in> set (matieres_enseignees pinfo)")
    case False
    with assms Some show ?thesis by (simp add: variables_prof_def)
  next
    case True
    with assms Some
    have "k \<in> set (fst (collect (variables_salle cfg pinfo (g, m, cid) prof)
                                 (map fst (salles cfg))))"
      by (simp add: variables_prof_def)
    then obtain salle where
      "k \<in> set (fst (variables_salle cfg pinfo (g, m, cid) prof salle))"
      using collect_set by fast
    from variables_salle_grille [OF this] show ?thesis by blast
  qed
qed

lemma create_variables_grille:
  assumes "(g, m, cid, p, s, j, h) \<in> set (fst (create_variables cfg cs))"
  shows "j \<in> set (jours (planning cfg)) \<and> h \<in> set (heures (planning cfg)) \<and>
         regles_eligibilite cfg (g, m, cid, p, s, j, h)"
proof -
  from assms obtain c where c: "c \<in> set cs"
    "(g, m, cid, p, s, j, h) \<in> set (fst (variables_cours cfg c))"
    unfolding create_variables_def using collect_set by fast
  obtain g' m' cid' where cc: "c = (g', m', cid')" by (cases c)
  from c(2) obtain prof where
    "(g, m, cid, p, s, j, h) \<in> set (fst (variables_prof cfg (g', m', cid') prof))"
    unfolding variables_cours_def cc using collect_set by fast
  from variables_prof_grille [OF this]
  have "j \<in> set (jours (planning cfg)) \<and> h \<in> set (heures (planning cfg))" by simp
  then show ?thesis using create_variables_eligible [OF assms] by simp
qed

lemma entrees_dd_append:
  "set (entrees (dd_append k v d)) = insert (k, v) (set (entrees d))"
proof (induction d)
  case Nil
  show ?case by (simp add: entrees_def)
next
  case (Cons a d)
  obtain k' vs where a: "a = (k', vs)" by (cases a)
  have e: "entrees (x # xs) = map (Pair (fst x)) (snd x) @ entrees xs" for x :: "string \<times> entry list" and xs
    by (simp add: entrees_def split_def)
  show ?case
  proof (cases "k = k'")
    case True
    then show ?thesis by (auto simp: a e)
  next
    case False
    then show ?thesis using Cons by (auto simp: a e)
  qed
qed

lemma decode_entrees:
  assumes "(g, j, h, m, p, s) \<in> set (entrees (decode val a))"
  shows "\<exists>cid. (g, m, cid, p, s, j, h) \<in> set a \<and> val (g, m, cid, p, s, j, h)"
proof -
  have "(g, j, h, m, p, s) \<in> set (entrees (foldl (\<lambda>sol key.
              (case key of (groupe, matiere, cours_id, prof, salle, jour, heure) \<Rightarrow>
                 if val key then dd_append groupe (jour, heure, matiere, prof, salle) sol
                 else sol)) d a)) \<Longrightarrow>
        (g, j, h, m, p, s) \<in> set (entrees d) \<or>
        (\<exists>cid. (g, m, cid, p, s, j, h) \<in> set a \<and> val (g, m, cid, p, s, j, h))" for d
  proof (induction a arbitrary: d)
    case Nil
    then show ?case by simp
  next
    case (Cons key a)
    obtain g' m' cid' p' s' j' h' where k: "key = (g', m', cid', p', s', j', h')"
      by (cases key) auto
    show ?case
    proof (cases "val key")
      case False
      with Cons.prems have "(g, j, h, m, p, s) \<in> set (entrees (foldl (\<lambda>sol key.
              (case key of (groupe, matiere, cours_id, prof, salle, jour, heure) \<Rightarrow>
                 if val key then dd_append groupe (jour, heure, matiere, prof, salle) sol
                 else sol)) d a))" by (simp add: k)
      from Cons.IH [OF this] show ?thesis by auto
    next
      case True
      with Cons.prems have "(g, j, h, m, p, s) \<in> set (entrees (foldl (\<lambda>sol key.
              (case key of (groupe, matiere, cours_id, prof, salle, jour, heure) \<Rightarrow>
                 if val key then dd_append groupe (jour, heure, matiere, prof, salle) sol
                 else sol)) (dd_append g' (j', h', m', p', s') d) a))" by (simp add: k)
      from Cons.IH [OF this] have
        "(g, j, h, m, p, s) \<in> set (entrees (dd_append g' (j', h', m', p', s') d)) \<or>
         (\<exists>cid. (g, m, cid, p, s, j, h) \<in> set a \<and> val (g, m, cid, p, s, j, h))" .
      then show ?thesis
      proof
        assume "(g, j, h, m, p, s) \<in> set (entrees (dd_append g' (j', h', m', p', s') d))"
        then have "(g, j, h, m, p, s) = (g', j', h', m', p', s') \<or>
                   (g, j, h, m, p, s) \<in> set (entrees d)"
          unfolding entrees_dd_append by simp
        then show ?thesis using True k by auto
      next
        assume "\<exists>cid. (g, m, cid, p, s, j, h) \<in> set a \<and> val (g, m, cid, p, s, j, h)"
        then show ?thesis by auto
      qed
    qed
  qed
  from this [of "[]"] assms show ?thesis
    by (simp add: decode_def entrees_def)
qed

lemma decode_eligible:
  assumes "(g, j, h, m, p, s) \<in> set (entrees (decode val (dict_keys (fst (create_variables cfg cs)))))"
  shows "j \<in> set (jours (planning cfg)) \<and> h \<in> set (heures (planning cfg)) \<and>
         (\<exists>cid. regles_eligibilite cfg (g, m, cid, p, s, j, h))"
proof -
  from decode_entrees [OF assms] obtain cid where
    "(g, m, cid, p, s, j, h) \<in> set (fst (create_variables cfg cs))"
    by (auto simp: set_dict_keys2)
  from create_variables_grille [OF this] show ?thesis by blast
qed

lemma regles_eligibilite_lookups:
  assumes "regles_eligibilite cfg (g, m, cid, p, s, j, h)"
  shows "\<exists>pinfo sinfo minfo. map_of (professeurs cfg) p = Some pinfo \<and>
           map_of (salles cfg) s = Some sinfo \<and> map_of (matieres cfg) m = Some minfo \<and>
           m \<in> set (matieres_enseignees pinfo) \<and> type_salle sinfo = salle_requise minfo"
  using assms
  by (cases "map_of (professeurs cfg) p"; cases "map_of (salles cfg) s";
      cases "map_of (matieres cfg) m") (simp_all add: regles_eligibilite_def)

lemma decoded_dans_la_grille:
  "dans_la_grille cfg (decode val (dict_keys (fst (create_variables cfg cs))))"
  unfolding dans_la_grille_def list_all_iff
proof
  fix e assume e: "e \<in> set (entrees (decode val (dict_keys (fst (create_variables cfg cs)))))"
  obtain g j h m p s where ee: "e = (g, j, h, m, p, s)" by (cases e) auto
  from decode_eligible [OF e [unfolded ee]] obtain cid where
    jh: "j \<in> set (jours (planning cfg))" "h \<in> set (heures (planning cfg))"
    and r: "regles_eligibilite cfg (g, m, cid, p, s, j, h)" by blast
  from regles_eligibilite_lookups [OF r] obtain sinfo where "map_of (salles cfg) s = Some sinfo"
    by blast
  then have "s \<in> set (map fst (salles cfg))"
    by (metis map_of_eq_None_iff option.distinct(1) set_map)
  with jh show "case e of (groupe, jour, heure, matiere, prof, salle) \<Rightarrow>
                 jour \<in> set (jours (planning cfg)) \<and> heure \<in> set (heures (planning cfg)) \<and>
                 salle \<in> set (map fst (salles cfg))"
    by (simp add: ee)
qed

section \<open>Claims on the free rooms\<close>

lemma get_occupees_set:
  "set (get_occupees (salles_occupees solution) c) = {s. (c, s) \<in> set (creneaux_salles solution)}"
proof -
  have "get_occupees (salles_occupees solution) c =
          dict_keys (map snd (filter (\<lambda>kv. fst kv = c) (creneaux_salles solution)))"
    unfolding get_occupees_def creneaux_salles_occupees by (rule values_grouper_set)
  then show ?thesis unfolding set_dict_keys2 by force
qed

lemma length_get_occupees:
  "length (get_occupees (salles_occupees solution) c) = compte_creneau solution c"
proof -
  have "get_occupees (salles_occupees solution) c =
          dict_keys (map snd (filter (\<lambda>kv. fst kv = c) (creneaux_salles solution)))"
    unfolding get_occupees_def creneaux_salles_occupees by (rule values_grouper_set)
  then show ?thesis by (simp add: length_dict_keys compte_creneau_def)
qed

lemma salles_creneau_dans_la_grille:
  assumes g: "dans_la_grille cfg solution"
  shows "\<exists>occ libres. salles_creneau cfg (salles_occupees solution) c = Inr (occ, libres)"
proof -
  define oc where "oc = get_occupees (salles_occupees solution) c"
  have "map_err (lookup (salles cfg)) (sort oc) =
          Inr (map (\<lambda>s. the (map_of (salles cfg) s)) (sort oc))"
  proof (rule map_err_total)
    fix s assume "s \<in> set (sort oc)"
    then have "(c, s) \<in> set (creneaux_salles solution)"
      by (simp add: oc_def get_occupees_set)
    from dans_la_grille_creneaux [OF g this] have "s \<in> fst ` set (salles cfg)" by simp
    then obtain si where "map_of (salles cfg) s = Some si"
      using map_of_keys [of s "salles cfg"] by blast
    then show "lookup (salles cfg) s = Inr (the (map_of (salles cfg) s))"
      by (simp add: lookup_def)
  qed
  then show ?thesis
    unfolding salles_creneau_def Let_def oc_def [symmetric] by simp
qed

text \<open>
  Claim C10. For every time slot, on the solution the program decodes, whatever the
  solver answers: the loop body returns (the lookup \<open>salles[salle]\<close> of an occupied room
  never raises), the free rooms are the configured rooms minus the occupied rooms of the
  slot, the two sets are disjoint and their union is the set of all configured rooms. The
  same computation is made in \<open>export_salles_libres_to_json\<close>.
\<close>

theorem salles_libres_complement:
  "\<exists>occ libres.
     salles_creneau cfg
       (salles_occupees (decode val (dict_keys (fst (create_variables cfg cs))))) c =
       Inr (occ, libres) \<and>
     set libres = set (map fst (salles cfg)) - set occ \<and>
     set occ \<inter> set libres = {} \<and>
     set occ \<union> set libres = set (map fst (salles cfg)) \<and>
     set occ =
       set (get_occupees
              (salles_occupees (decode val (dict_keys (fst (create_variables cfg cs))))) c)"
proof -
  from salles_creneau_dans_la_grille [OF decoded_dans_la_grille, of cfg val cs c]
  obtain occ libres where
    e: "salles_creneau cfg
          (salles_occupees (decode val (dict_keys (fst (create_variables cfg cs))))) c =
        Inr (occ, libres)" by blast
  from salles_creneau_complement [OF e] e show ?thesis by blast
qed

section \<open>Claims on the occupancy rates: the bounds\<close>

lemma sum_grille:
  assumes g: "dans_la_grille cfg solution"
  shows "(\<Sum>c \<in> set (grille cfg). length (get_occupees (salles_occupees solution) c)) =
         total_occupations (salles_occupees solution)"
proof -
  let ?K = "set (map fst (creneaux_salles solution))"
  have sub: "?K \<subseteq> set (grille cfg)"
    using dans_la_grille_creneaux [OF g] by auto
  have z: "\<forall>c \<in> set (grille cfg) - ?K. compte_creneau solution c = 0"
  proof
    fix c assume "c \<in> set (grille cfg) - ?K"
    then have "filter (\<lambda>kv. fst kv = c) (creneaux_salles solution) = []"
      by (auto simp: filter_empty_conv)
    then show "compte_creneau solution c = 0" by (simp add: compte_creneau_def)
  qed
  have "(\<Sum>c \<in> set (grille cfg). compte_creneau solution c) =
        (\<Sum>c \<in> ?K. compte_creneau solution c)"
    by (rule sum.mono_neutral_right [OF _ sub z]) simp
  then show ?thesis
    by (simp add: length_get_occupees total_occupations_sum)
qed

text \<open>
  Claim C6. On the solution the program decodes, whatever the solver answers, with at
  least one day, one hour and one room: the occupancy rate of every room and the global
  rate are computed (no division by zero) and lie between 0 and 100; and the sum over the
  slots of the grid of the number of occupied rooms of the slot is the numerator of the
  global rate. For every solution, that numerator is the sum over the occupied slots of
  the number of distinct rooms used in the slot, and the number of distinct (slot, room)
  pairs of the solution.
\<close>

theorem taux_occupation_bornes:
  "(jours (planning cfg) \<noteq> [] \<and> heures (planning cfg) \<noteq> [] \<and> salles cfg \<noteq> [] \<longrightarrow>
      (\<forall>salle. \<exists>t.
         taux_salle cfg
           (salles_occupees (decode val (dict_keys (fst (create_variables cfg cs))))) salle =
           Inr (salle,
                occupation_par_salle
                  (salles_occupees (decode val (dict_keys (fst (create_variables cfg cs)))))
                  salle, t) \<and>
         0 \<le> t \<and> t \<le> 100) \<and>
      (\<exists>t. taux_global cfg
              (salles_occupees (decode val (dict_keys (fst (create_variables cfg cs))))) =
              Inr t \<and> 0 \<le> t \<and> t \<le> 100)) \<and>
   (\<Sum>c \<in> set (grille cfg).
       length (get_occupees
                 (salles_occupees (decode val (dict_keys (fst (create_variables cfg cs))))) c)) =
     total_occupations
       (salles_occupees (decode val (dict_keys (fst (create_variables cfg cs))))) \<and>
   total_occupations (salles_occupees solution) =
     (\<Sum>c \<in> set (map fst (creneaux_salles solution)). compte_creneau solution c) \<and>
   total_occupations (salles_occupees solution) = card (set (creneaux_salles solution))"
proof -
  define sol where "sol = decode val (dict_keys (fst (create_variables cfg cs)))"
  have g: "dans_la_grille cfg sol" unfolding sol_def by (rule decoded_dans_la_grille)
  have 1: "jours (planning cfg) \<noteq> [] \<and> heures (planning cfg) \<noteq> [] \<and> salles cfg \<noteq> [] \<longrightarrow>
      (\<forall>salle. \<exists>t.
         taux_salle cfg (salles_occupees sol) salle =
           Inr (salle, occupation_par_salle (salles_occupees sol) salle, t) \<and>
         0 \<le> t \<and> t \<le> 100) \<and>
      (\<exists>t. taux_global cfg (salles_occupees sol) = Inr t \<and> 0 \<le> t \<and> t \<le> 100)"
    using taux_bornes_dans_la_grille [OF g] by blast
  have 2: "(\<Sum>c \<in> set (grille cfg). length (get_occupees (salles_occupees sol) c)) =
           total_occupations (salles_occupees sol)"
    by (rule sum_grille [OF g])
  show ?thesis
    unfolding sol_def [symmetric]
    using 1 2 total_occupations_sum [of solution] total_occupations_card [of solution]
    by (intro conjI)
qed

theorem taux_occupation_bornes_witness:
  "jours (planning cfg_exemple) \<noteq> [] \<and> heures (planning cfg_exemple) \<noteq> [] \<and>
   salles cfg_exemple \<noteq> [] \<and>
   decode (List.member [(''6A'', ''Maths'', 0, ''Dupont'', ''S1'', ''Lundi'', ''9h''),
                        (''6B'', ''Maths'', 1, ''Dupont'', ''S1'', ''Lundi'', ''8h'')])
          (dict_keys (fst (create_variables cfg_exemple
                             (generate_cours_from_config cfg_exemple)))) = sol_exemple \<and>
   (\<exists>t. taux_global cfg_exemple (salles_occupees sol_exemple) = Inr t \<and> 0 \<le> t \<and> t \<le> 100)"
proof -
  have j: "jours (planning cfg_exemple) \<noteq> []" and h: "heures (planning cfg_exemple) \<noteq> []"
    and s: "salles cfg_exemple \<noteq> []"
    by (simp_all add: cfg_exemple_def)
  have d: "decode (List.member [(''6A'', ''Maths'', 0, ''Dupont'', ''S1'', ''Lundi'', ''9h''),
                        (''6B'', ''Maths'', 1, ''Dupont'', ''S1'', ''Lundi'', ''8h'')])
          (dict_keys (fst (create_variables cfg_exemple
                             (generate_cours_from_config cfg_exemple)))) = sol_exemple"
    by code_simp
  show ?thesis
    using j h s d
      taux_occupation_bornes [of cfg_exemple
        "List.member [(''6A'', ''Maths'', 0, ''Dupont'', ''S1'', ''Lundi'', ''9h''),
                      (''6B'', ''Maths'', 1, ''Dupont'', ''S1'', ''Lundi'', ''8h'')]"
        "generate_cours_from_config cfg_exemple"]
    by simp
qed


section \<open>Claims on verifier_solution\<close>

text \<open>The lines one entry gives rise to, when its teacher, subject and room are configured.\<close>

definition violations_entree :: "config \<Rightarrow> string \<times> entry \<Rightarrow> violation list" where
  "violations_entree cfg ge =
     (case ge of (groupe, jour, heure, matiere, prof, salle) \<Rightarrow>
        (case (map_of (professeurs cfg) prof, map_of (matieres cfg) matiere,
               map_of (salles cfg) salle) of
           (Some prof_info, Some infos_matiere, Some salle_info) \<Rightarrow>
             (if matiere \<notin> set (matieres_enseignees prof_info)
              then [Erreur_competence prof matiere] else []) @
             (if type_salle salle_info \<noteq> salle_requise infos_matiere
              then [Erreur_salle matiere (salle_requise infos_matiere) salle] else [])
         | _ \<Rightarrow> []))"

definition entree_connue :: "config \<Rightarrow> string \<times> entry \<Rightarrow> bool" where
  "entree_connue cfg ge =
     (case ge of (groupe, jour, heure, matiere, prof, salle) \<Rightarrow>
        map_of (professeurs cfg) prof \<noteq> None \<and> map_of (matieres cfg) matiere \<noteq> None \<and>
        map_of (salles cfg) salle \<noteq> None)"

lemma verifier_entree_Inr:
  "verifier_entree cfg st (g, j, h, m, p, s) =
     (if entree_connue cfg (g, j, h, m, p, s) then
        Inr \<lparr>cours_assignes = cours_assignes st + 1,
             conflits_prof = dd_append p (j, h) (conflits_prof st),
             conflits_salle = dd_append s (j, h) (conflits_salle st),
             conflits_groupe = dd_append g (j, h) (conflits_groupe st),
             is_valid = (is_valid st \<and> violations_entree cfg (g, j, h, m, p, s) = []),
             sortie = sortie st @ violations_entree cfg (g, j, h, m, p, s)\<rparr>
      else Inl KeyError)"
  by (cases "map_of (professeurs cfg) p"; cases "map_of (matieres cfg) m";
      cases "map_of (salles cfg) s")
     (simp_all add: verifier_entree_def entree_connue_def violations_entree_def lookup_def
        signaler_def Let_def)

definition cles_prof :: "(string \<times> entry) list \<Rightarrow> (string \<times> creneau) list" where
  "cles_prof es = map (\<lambda>(g, j, h, m, p, s). (p, (j, h))) es"

definition cles_salle :: "(string \<times> entry) list \<Rightarrow> (string \<times> creneau) list" where
  "cles_salle es = map (\<lambda>(g, j, h, m, p, s). (s, (j, h))) es"

definition cles_groupe :: "(string \<times> entry) list \<Rightarrow> (string \<times> creneau) list" where
  "cles_groupe es = map (\<lambda>(g, j, h, m, p, s). (g, (j, h))) es"

definition grouper_list :: "('k \<times> 'v list) list \<Rightarrow> ('k \<times> 'v) list \<Rightarrow> ('k \<times> 'v list) list" where
  "grouper_list d kvs = foldl (\<lambda>d (k, v). dd_append k v d) d kvs"

lemma grouper_list_Cons:
  "grouper_list d ((k, v) # kvs) = grouper_list (dd_append k v d) kvs"
  by (simp add: grouper_list_def)

lemma foldl_err_verifier:
  "foldl_err (verifier_entree cfg) st es =
     (if list_all (entree_connue cfg) es then
        Inr \<lparr>cours_assignes = cours_assignes st + length es,
             conflits_prof = grouper_list (conflits_prof st) (cles_prof es),
             conflits_salle = grouper_list (conflits_salle st) (cles_salle es),
             conflits_groupe = grouper_list (conflits_groupe st) (cles_groupe es),
             is_valid = (is_valid st \<and> concat (map (violations_entree cfg) es) = []),
             sortie = sortie st @ concat (map (violations_entree cfg) es)\<rparr>
      else Inl KeyError)"
proof (induction es arbitrary: st)
  case Nil
  show ?case
    by (simp add: grouper_list_def cles_prof_def cles_salle_def cles_groupe_def)
next
  case (Cons e es)
  obtain g j h m p s where e: "e = (g, j, h, m, p, s)" by (cases e) auto
  show ?case
  proof (cases "entree_connue cfg e")
    case False
    then show ?thesis by (simp add: e verifier_entree_Inr)
  next
    case True
    then show ?thesis
      unfolding e
      by (simp add: verifier_entree_Inr Cons cles_prof_def cles_salle_def cles_groupe_def
            grouper_list_Cons conj_assoc)
  qed
qed

lemma grouper_list_snoc:
  "grouper_list d (kvs @ [(k, v)]) = dd_append k v (grouper_list d kvs)"
  by (simp add: grouper_list_def)

lemma keys_grouper_list: "map fst (grouper_list [] kvs) = dict_keys (map fst kvs)"
proof (induction kvs rule: rev_induct)
  case Nil
  show ?case by (simp add: grouper_list_def dict_keys_def)
next
  case (snoc kv kvs)
  obtain k v where kv: "kv = (k, v)" by (cases kv)
  have "set (map fst (grouper_list [] kvs)) = set (map fst kvs)"
    by (simp only: snoc set_dict_keys2)
  then show ?case
    by (simp add: kv grouper_list_snoc dd_append_upd keys_alist_upd dict_keys_snoc snoc
             del: set_map)
qed

lemma values_grouper_list:
  "(case map_of (grouper_list [] kvs) k of None \<Rightarrow> [] | Some vs \<Rightarrow> vs) =
     map snd (filter (\<lambda>kv. fst kv = k) kvs)"
proof (induction kvs rule: rev_induct)
  case Nil
  show ?case by (simp add: grouper_list_def)
next
  case (snoc kv kvs)
  obtain k' v where kv: "kv = (k', v)" by (cases kv)
  show ?case
    using snoc
    by (cases "k' = k")
       (simp_all add: kv grouper_list_snoc dd_append_upd map_of_alist_upd split: option.splits)
qed

lemma grouper_list_value:
  assumes "(k, vs) \<in> set (grouper_list [] kvs)"
  shows "vs = map snd (filter (\<lambda>kv. fst kv = k) kvs)"
proof -
  have "distinct (map fst (grouper_list [] kvs))"
    by (simp add: keys_grouper_list distinct_dict_keys)
  with assms have "map_of (grouper_list [] kvs) k = Some vs" by simp
  with values_grouper_list [of kvs k] show ?thesis by simp
qed

lemma Counter_snoc: "Counter (xs @ [x]) = counter_add x (Counter xs)"
  by (simp add: Counter_def)

lemma keys_Counter: "map fst (Counter xs) = dict_keys xs"
proof (induction xs rule: rev_induct)
  case Nil
  show ?case by (simp add: Counter_def dict_keys_def)
next
  case (snoc x xs)
  have "set (map fst (Counter xs)) = set xs"
    by (simp only: snoc set_dict_keys2)
  then show ?case
    by (simp add: Counter_snoc counter_add_upd keys_alist_upd dict_keys_snoc snoc
             del: set_map)
qed

lemma values_Counter:
  "(case map_of (Counter xs) x of None \<Rightarrow> 0 | Some n \<Rightarrow> n) = count_list xs x"
proof (induction xs rule: rev_induct)
  case Nil
  show ?case by (simp add: Counter_def)
next
  case (snoc y xs)
  show ?case
    using snoc
    by (cases "y = x")
       (simp_all add: Counter_snoc counter_add_upd map_of_alist_upd split: option.splits)
qed

lemma Counter_value:
  assumes "(x, n) \<in> set (Counter xs)"
  shows "n = count_list xs x"
proof -
  have "distinct (map fst (Counter xs))" by (simp add: keys_Counter distinct_dict_keys)
  with assms have "map_of (Counter xs) x = Some n" by simp
  with values_Counter [of xs x] show ?thesis by simp
qed

lemma Counter_member:
  "(x, n) \<in> set (Counter xs) \<longleftrightarrow> x \<in> set xs \<and> n = count_list xs x"
proof
  assume a: "(x, n) \<in> set (Counter xs)"
  then have "x \<in> set (map fst (Counter xs))" by force
  then have "x \<in> set xs" by (simp only: keys_Counter set_dict_keys2)
  with Counter_value [OF a] show "x \<in> set xs \<and> n = count_list xs x" by simp
next
  assume a: "x \<in> set xs \<and> n = count_list xs x"
  then have "x \<in> set (map fst (Counter xs))" by (simp only: keys_Counter set_dict_keys2)
  then obtain n' where n': "(x, n') \<in> set (Counter xs)" by auto
  from Counter_value [OF n'] a n' show "(x, n) \<in> set (Counter xs)" by simp
qed

text \<open>The number of entries of a resource in a slot.\<close>

lemma count_list_map_snd_filter:
  "count_list (map snd (filter (\<lambda>kv. fst kv = k) kvs)) v = count_list kvs (k, v)"
  by (induction kvs) auto

definition conflits_ressource :: "string \<Rightarrow> string \<times> creneau list \<Rightarrow> violation list" where
  "conflits_ressource resource_name rs =
     (case rs of (resource, slots) \<Rightarrow>
        [Erreur_conflit resource_name resource count slot.
           (slot, count) \<leftarrow> Counter slots, 1 < count])"

lemma concat_map_if:
  "concat (map (\<lambda>x. if P x then [f x] else []) xs) = map f (filter P xs)"
  by (induction xs) auto

lemma conflits_ressource_map:
  "conflits_ressource name (r, slots) =
     map (\<lambda>x. Erreur_conflit name r (snd x) (fst x)) (filter (\<lambda>x. 1 < snd x) (Counter slots))"
proof -
  have "conflits_ressource name (r, slots) =
          concat (map (\<lambda>x. if 1 < snd x then [Erreur_conflit name r (snd x) (fst x)] else [])
                      (Counter slots))"
    unfolding conflits_ressource_def prod.case by (simp add: split_def)
  then show ?thesis by (simp only: concat_map_if)
qed

lemma conflits_concat:
  "conflits name d = concat (map (conflits_ressource name) d)"
proof -
  have "(\<lambda>(resource, slots).
           [Erreur_conflit name resource count slot. (slot, count) \<leftarrow> Counter slots, 1 < count])
        = conflits_ressource name"
    by (rule ext) (simp add: conflits_ressource_def split_def)
  then show ?thesis by (simp only: conflits_def)
qed

lemma conflits_ressource_member:
  "Erreur_conflit name' r' n c \<in> set (conflits_ressource name (r, slots)) \<longleftrightarrow>
     name' = name \<and> r' = r \<and> n = count_list slots c \<and> 1 < n"
proof -
  have "Erreur_conflit name' r' n c \<in> set (conflits_ressource name (r, slots)) \<longleftrightarrow>
        (\<exists>x \<in> set (Counter slots). 1 < snd x \<and>
           Erreur_conflit name' r' n c = Erreur_conflit name r (snd x) (fst x))"
    unfolding conflits_ressource_map by auto
  also have "\<dots> \<longleftrightarrow> name' = name \<and> r' = r \<and> (c, n) \<in> set (Counter slots) \<and> 1 < n"
  proof
    assume "\<exists>x \<in> set (Counter slots). 1 < snd x \<and>
           Erreur_conflit name' r' n c = Erreur_conflit name r (snd x) (fst x)"
    then obtain x where x: "x \<in> set (Counter slots)" "1 < snd x"
      "name' = name" "r' = r" "n = snd x" "c = fst x" by auto
    from x(1) x(5) x(6) have "(c, n) \<in> set (Counter slots)" by simp
    with x show "name' = name \<and> r' = r \<and> (c, n) \<in> set (Counter slots) \<and> 1 < n" by simp
  next
    assume a: "name' = name \<and> r' = r \<and> (c, n) \<in> set (Counter slots) \<and> 1 < n"
    then have "(c, n) \<in> set (Counter slots) \<and> 1 < snd (c, n) \<and>
           Erreur_conflit name' r' n c = Erreur_conflit name r (snd (c, n)) (fst (c, n))"
      by simp
    then show "\<exists>x \<in> set (Counter slots). 1 < snd x \<and>
           Erreur_conflit name' r' n c = Erreur_conflit name r (snd x) (fst x)" by blast
  qed
  also have "\<dots> \<longleftrightarrow> name' = name \<and> r' = r \<and> n = count_list slots c \<and> 1 < n"
  proof -
    have "1 < count_list slots c \<Longrightarrow> c \<in> set slots"
      by (metis count_list_0_iff not_less_zero)
    then show ?thesis unfolding Counter_member by auto
  qed
  finally show ?thesis .
qed

lemma distinct_conflits_ressource: "distinct (conflits_ressource name rs)"
proof -
  obtain r slots where rs: "rs = (r, slots)" by (cases rs)
  have d: "distinct (Counter slots)"
    using distinct_dict_keys [of slots] keys_Counter [of slots] by (metis distinct_map)
  have "inj (\<lambda>x :: creneau \<times> nat. Erreur_conflit name r (snd x) (fst x))"
    by (rule injI) (simp add: prod_eq_iff)
  then show ?thesis
    unfolding rs conflits_ressource_map using d
    by (simp add: distinct_map inj_on_def)
qed

lemma conflits_member:
  assumes "distinct (map fst d)"
  shows "Erreur_conflit name' r n c \<in> set (conflits name d) \<longleftrightarrow>
           name' = name \<and> (\<exists>slots. (r, slots) \<in> set d \<and> n = count_list slots c \<and> 1 < n)"
proof -
  have "Erreur_conflit name' r n c \<in> set (conflits name d) \<longleftrightarrow>
        (\<exists>rs \<in> set d. Erreur_conflit name' r n c \<in> set (conflits_ressource name rs))"
    by (simp add: conflits_concat)
  also have "\<dots> \<longleftrightarrow> (\<exists>r' slots. (r', slots) \<in> set d \<and>
                 Erreur_conflit name' r n c \<in> set (conflits_ressource name (r', slots)))"
    by auto
  also have "\<dots> \<longleftrightarrow> name' = name \<and> (\<exists>slots. (r, slots) \<in> set d \<and> n = count_list slots c \<and> 1 < n)"
    unfolding conflits_ressource_member by auto
  finally show ?thesis .
qed

lemma distinct_conflits:
  assumes "distinct (map fst d)"
  shows "distinct (conflits name d)"
  using assms
proof (induction d)
  case Nil
  show ?case by (simp add: conflits_concat)
next
  case (Cons rs d)
  obtain r slots where rs: "rs = (r, slots)" by (cases rs)
  from Cons.prems have dd: "distinct (map fst d)" and nr: "r \<notin> fst ` set d"
    by (simp_all add: rs)
  have disj: "set (conflits_ressource name rs) \<inter> set (conflits name d) = {}"
  proof (rule ccontr)
    assume "set (conflits_ressource name rs) \<inter> set (conflits name d) \<noteq> {}"
    then obtain v where v1: "v \<in> set (conflits_ressource name rs)"
      and v2: "v \<in> set (conflits name d)" by blast
    from v1 obtain n c where v: "v = Erreur_conflit name r n c"
      unfolding rs conflits_ressource_map by auto
    from v2 [unfolded v conflits_member [OF dd]] obtain slots' where "(r, slots') \<in> set d"
      by blast
    with nr show False by force
  qed
  show ?case
    using Cons.IH [OF dd] distinct_conflits_ressource [of name rs] disj
    by (simp add: conflits_concat)
qed

lemma foldl_signaler:
  "foldl (\<lambda>s v. signaler v s) st vs =
     st\<lparr>is_valid := is_valid st \<and> vs = [], sortie := sortie st @ vs\<rparr>"
proof (induction vs arbitrary: st)
  case Nil
  show ?case by simp
next
  case (Cons v vs)
  have "foldl (\<lambda>s v. signaler v s) st (v # vs) =
          foldl (\<lambda>s v. signaler v s) (signaler v st) vs" by simp
  also have "\<dots> = (signaler v st)\<lparr>is_valid := is_valid (signaler v st) \<and> vs = [],
                                       sortie := sortie (signaler v st) @ vs\<rparr>"
    by (rule Cons)
  also have "\<dots> = st\<lparr>is_valid := is_valid st \<and> v # vs = [], sortie := sortie st @ v # vs\<rparr>"
    by (simp add: signaler_def)
  finally show ?case .
qed

definition lignes_conflits :: "(string \<times> entry) list \<Rightarrow> violation list" where
  "lignes_conflits es =
     conflits ''professeur'' (grouper_list [] (cles_prof es)) @
     conflits ''salle'' (grouper_list [] (cles_salle es)) @
     conflits ''groupe'' (grouper_list [] (cles_groupe es))"

definition ligne_nombre :: "cours list \<Rightarrow> (string \<times> entry) list \<Rightarrow> violation list" where
  "ligne_nombre cs es =
     (if length es \<noteq> length cs then [Erreur_nombre (length cs) (length es)] else [])"

lemma verifier_solution_eq:
  "verifier_solution solution cs cfg =
     (if list_all (entree_connue cfg) (entrees solution) then
        Inr (concat (map (violations_entree cfg) (entrees solution)) @
               ligne_nombre cs (entrees solution) @ lignes_conflits (entrees solution) = [],
             concat (map (violations_entree cfg) (entrees solution)) @
               ligne_nombre cs (entrees solution) @ lignes_conflits (entrees solution))
      else Inl KeyError)"
  unfolding verifier_solution_def foldl_err_verifier foldl_signaler
  by (simp add: Let_def signaler_def etat_initial_def lignes_conflits_def ligne_nombre_def)

lemma conflits_grouper_member:
  "Erreur_conflit name' r n c \<in> set (conflits name (grouper_list [] kvs)) \<longleftrightarrow>
     name' = name \<and> n = count_list kvs (r, c) \<and> 1 < n"
proof -
  have d: "distinct (map fst (grouper_list [] kvs))"
    by (simp add: keys_grouper_list distinct_dict_keys)
  have "(\<exists>slots. (r, slots) \<in> set (grouper_list [] kvs) \<and> n = count_list slots c \<and> 1 < n)
        \<longleftrightarrow> n = count_list kvs (r, c) \<and> 1 < n"
  proof
    assume "\<exists>slots. (r, slots) \<in> set (grouper_list [] kvs) \<and> n = count_list slots c \<and> 1 < n"
    then obtain slots where s: "(r, slots) \<in> set (grouper_list [] kvs)"
      and n: "n = count_list slots c" "1 < n" by blast
    from grouper_list_value [OF s] n show "n = count_list kvs (r, c) \<and> 1 < n"
      by (simp add: count_list_map_snd_filter)
  next
    assume a: "n = count_list kvs (r, c) \<and> 1 < n"
    then have "(r, c) \<in> set kvs" by (metis count_list_0_iff not_less_zero)
    then have "r \<in> set (map fst kvs)" by force
    then have "r \<in> set (map fst (grouper_list [] kvs))"
      by (simp only: keys_grouper_list set_dict_keys2)
    then obtain slots where s: "(r, slots) \<in> set (grouper_list [] kvs)" by auto
    from grouper_list_value [OF s] a have "n = count_list slots c \<and> 1 < n"
      by (simp add: count_list_map_snd_filter)
    with s show "\<exists>slots. (r, slots) \<in> set (grouper_list [] kvs) \<and> n = count_list slots c \<and> 1 < n"
      by blast
  qed
  then show ?thesis unfolding conflits_member [OF d] by simp
qed

lemma count_list_distinct_member:
  "distinct xs \<Longrightarrow> count_list xs x = (if x \<in> set xs then 1 else 0)"
  by (induction xs) auto

lemma count_conflits_grouper:
  "count_list (conflits name (grouper_list [] kvs)) (Erreur_conflit name' r n c) =
     (if name' = name \<and> n = count_list kvs (r, c) \<and> 1 < n then 1 else 0)"
proof -
  have "distinct (conflits name (grouper_list [] kvs))"
    by (rule distinct_conflits) (simp add: keys_grouper_list distinct_dict_keys)
  then show ?thesis
    by (simp only: count_list_distinct_member conflits_grouper_member)
qed

lemma violations_entree_pas_conflit:
  "Erreur_conflit name r n c \<notin> set (concat (map (violations_entree cfg) es))"
  by (auto simp: violations_entree_def split: option.splits if_splits)

lemma count_list_notin: "x \<notin> set xs \<Longrightarrow> count_list xs x = 0"
  by (simp add: count_list_0_iff)

lemma count_lignes:
  "count_list (concat (map (violations_entree cfg) es) @ ligne_nombre cs es @ lignes_conflits es)
     (Erreur_conflit name r n c) =
   (if name = ''professeur'' \<and> n = count_list (cles_prof es) (r, c) \<and> 1 < n then 1 else 0) +
   (if name = ''salle'' \<and> n = count_list (cles_salle es) (r, c) \<and> 1 < n then 1 else 0) +
   (if name = ''groupe'' \<and> n = count_list (cles_groupe es) (r, c) \<and> 1 < n then 1 else 0)"
proof -
  have a: "count_list (concat (map (violations_entree cfg) es)) (Erreur_conflit name r n c) = 0"
    by (rule count_list_notin) (rule violations_entree_pas_conflit)
  have b: "count_list (ligne_nombre cs es) (Erreur_conflit name r n c) = 0"
    by (simp add: ligne_nombre_def)
  show ?thesis
    unfolding count_list_append a b lignes_conflits_def count_conflits_grouper
    by (simp add: eq_commute [of name])
qed

lemma decoded_entrees_connues:
  "list_all (entree_connue cfg)
     (entrees (decode val (dict_keys (fst (create_variables cfg cs)))))"
  unfolding list_all_iff
proof
  fix e assume e: "e \<in> set (entrees (decode val (dict_keys (fst (create_variables cfg cs)))))"
  obtain g j h m p s where ee: "e = (g, j, h, m, p, s)" by (cases e) auto
  from decode_eligible [OF e [unfolded ee]] obtain cid where
    "regles_eligibilite cfg (g, m, cid, p, s, j, h)" by blast
  from regles_eligibilite_lookups [OF this] show "entree_connue cfg e"
    by (auto simp: entree_connue_def ee)
qed

text \<open>
  Claim C3, as amended. On the solution the program decodes, whatever the solver answers,
  \<open>verifier_solution\<close> returns (no lookup raises). Whenever it returns, it returns a
  boolean and has printed one line for every violation found, going on after the first
  one: the lines of every entry in order, then the line of the count of courses, then
  the conflicts of the teachers, of the rooms and of the groups; the boolean is true
  exactly when no line was printed. A conflict line carries the kind of the resource, its
  name, the number of simultaneous courses and the slot, and nothing of the entries in
  conflict; it is printed exactly once for a resource with more than one entry in a slot
  (so two entries sharing a room and a slot give exactly one room line, with the count 2)
  and never otherwise.
\<close>

theorem verifier_solution_lignes:
  "(\<exists>ok out. verifier_solution (decode val (dict_keys (fst (create_variables cfg cs)))) cs cfg =
               Inr (ok, out)) \<and>
   (verifier_solution solution cs cfg = Inr (ok, out) \<longrightarrow>
      (ok \<longleftrightarrow> out = []) \<and>
      out = concat (map (violations_entree cfg) (entrees solution)) @
            ligne_nombre cs (entrees solution) @ lignes_conflits (entrees solution) \<and>
      (\<forall>r n c. count_list out (Erreur_conflit ''salle'' r n c) =
         (if n = count_list (cles_salle (entrees solution)) (r, c) \<and> 1 < n then 1 else 0)) \<and>
      (\<forall>r n c. count_list out (Erreur_conflit ''professeur'' r n c) =
         (if n = count_list (cles_prof (entrees solution)) (r, c) \<and> 1 < n then 1 else 0)) \<and>
      (\<forall>r n c. count_list out (Erreur_conflit ''groupe'' r n c) =
         (if n = count_list (cles_groupe (entrees solution)) (r, c) \<and> 1 < n then 1 else 0)))"
proof -
  have 1: "\<exists>ok out. verifier_solution (decode val (dict_keys (fst (create_variables cfg cs))))
                       cs cfg = Inr (ok, out)"
    unfolding verifier_solution_eq using decoded_entrees_connues [of cfg val cs] by simp
  have 2: "verifier_solution solution cs cfg = Inr (ok, out) \<longrightarrow>
      (ok \<longleftrightarrow> out = []) \<and>
      out = concat (map (violations_entree cfg) (entrees solution)) @
            ligne_nombre cs (entrees solution) @ lignes_conflits (entrees solution) \<and>
      (\<forall>r n c. count_list out (Erreur_conflit ''salle'' r n c) =
         (if n = count_list (cles_salle (entrees solution)) (r, c) \<and> 1 < n then 1 else 0)) \<and>
      (\<forall>r n c. count_list out (Erreur_conflit ''professeur'' r n c) =
         (if n = count_list (cles_prof (entrees solution)) (r, c) \<and> 1 < n then 1 else 0)) \<and>
      (\<forall>r n c. count_list out (Erreur_conflit ''groupe'' r n c) =
         (if n = count_list (cles_groupe (entrees solution)) (r, c) \<and> 1 < n then 1 else 0))"
  proof
    assume a: "verifier_solution solution cs cfg = Inr (ok, out)"
    define L where "L = concat (map (violations_entree cfg) (entrees solution)) @
            ligne_nombre cs (entrees solution) @ lignes_conflits (entrees solution)"
    from a have ok: "ok \<longleftrightarrow> L = []" and out: "out = L"
      unfolding verifier_solution_eq L_def by (auto split: if_splits)
    have s: "count_list L (Erreur_conflit ''salle'' r n c) =
         (if n = count_list (cles_salle (entrees solution)) (r, c) \<and> 1 < n then 1 else 0)"
      for r n c unfolding L_def count_lignes by simp
    have p: "count_list L (Erreur_conflit ''professeur'' r n c) =
         (if n = count_list (cles_prof (entrees solution)) (r, c) \<and> 1 < n then 1 else 0)"
      for r n c unfolding L_def count_lignes by simp
    have g: "count_list L (Erreur_conflit ''groupe'' r n c) =
         (if n = count_list (cles_groupe (entrees solution)) (r, c) \<and> 1 < n then 1 else 0)"
      for r n c unfolding L_def count_lignes by simp
    show "(ok \<longleftrightarrow> out = []) \<and>
      out = concat (map (violations_entree cfg) (entrees solution)) @
            ligne_nombre cs (entrees solution) @ lignes_conflits (entrees solution) \<and>
      (\<forall>r n c. count_list out (Erreur_conflit ''salle'' r n c) =
         (if n = count_list (cles_salle (entrees solution)) (r, c) \<and> 1 < n then 1 else 0)) \<and>
      (\<forall>r n c. count_list out (Erreur_conflit ''professeur'' r n c) =
         (if n = count_list (cles_prof (entrees solution)) (r, c) \<and> 1 < n then 1 else 0)) \<and>
      (\<forall>r n c. count_list out (Erreur_conflit ''groupe'' r n c) =
         (if n = count_list (cles_groupe (entrees solution)) (r, c) \<and> 1 < n then 1 else 0))"
      unfolding out using ok out s p g by (simp add: L_def)
  qed
  show ?thesis using 1 2 by (rule conjI)
qed

definition cfg_conflit :: config where
  "cfg_conflit =
     \<lparr>groupes_eleves = [\<lparr>nom = ''6A'', niveau = ''6e''\<rparr>, \<lparr>nom = ''6B'', niveau = ''6e''\<rparr>,
                        \<lparr>nom = ''6C'', niveau = ''6e''\<rparr>],
      curriculum = [(''6e'', \<lparr>matieres_obligatoires = [(''Maths'', 1)]\<rparr>)],
      professeurs =
        [(''Dupont'', \<lparr>matieres_enseignees = [''Maths''],
                       contraintes = \<lparr>jours_indisponibles = [],
                                      heures_indisponibles = []\<rparr>\<rparr>),
         (''Martin'', \<lparr>matieres_enseignees = [''Maths''],
                       contraintes = \<lparr>jours_indisponibles = [],
                                      heures_indisponibles = []\<rparr>\<rparr>)],
      salles = [(''S1'', \<lparr>type_salle = ''standard'', capacite = Some 30, equipements = []\<rparr>),
                (''S2'', \<lparr>type_salle = ''standard'', capacite = Some 30, equipements = []\<rparr>)],
      matieres = [(''Maths'', \<lparr>salle_requise = ''standard''\<rparr>)],
      planning = \<lparr>jours = [''Lundi''], heures = [''8h'', ''9h'']\<rparr>\<rparr>"

definition sol_conflit_AB :: solution where
  "sol_conflit_AB =
     [(''6A'', [(''Lundi'', ''8h'', ''Maths'', ''Dupont'', ''S1'')]),
      (''6B'', [(''Lundi'', ''8h'', ''Maths'', ''Martin'', ''S1'')]),
      (''6C'', [(''Lundi'', ''9h'', ''Maths'', ''Dupont'', ''S2'')])]"

definition sol_conflit_BC :: solution where
  "sol_conflit_BC =
     [(''6A'', [(''Lundi'', ''9h'', ''Maths'', ''Dupont'', ''S2'')]),
      (''6B'', [(''Lundi'', ''8h'', ''Maths'', ''Martin'', ''S1'')]),
      (''6C'', [(''Lundi'', ''8h'', ''Maths'', ''Dupont'', ''S1'')])]"

theorem verifier_solution_lignes_witness:
  "verifier_solution sol_conflit_AB (generate_cours_from_config cfg_conflit) cfg_conflit =
     Inr (False, [Erreur_conflit ''salle'' ''S1'' 2 (''Lundi'', ''8h'')]) \<and>
   count_list (cles_salle (entrees sol_conflit_AB)) (''S1'', (''Lundi'', ''8h'')) = 2 \<and>
   count_list [Erreur_conflit ''salle'' ''S1'' 2 (''Lundi'', ''8h'')]
     (Erreur_conflit ''salle'' ''S1'' 2 (''Lundi'', ''8h'')) = 1"
proof -
  have e: "verifier_solution sol_conflit_AB (generate_cours_from_config cfg_conflit)
             cfg_conflit = Inr (False, [Erreur_conflit ''salle'' ''S1'' 2 (''Lundi'', ''8h'')])"
    by code_simp
  have c: "count_list (cles_salle (entrees sol_conflit_AB)) (''S1'', (''Lundi'', ''8h'')) = 2"
    by code_simp
  from verifier_solution_lignes [where solution = sol_conflit_AB
         and cs = "generate_cours_from_config cfg_conflit" and cfg = cfg_conflit
         and ok = False and out = "[Erreur_conflit ''salle'' ''S1'' 2 (''Lundi'', ''8h'')]"] e
  have "count_list [Erreur_conflit ''salle'' ''S1'' 2 (''Lundi'', ''8h'')]
          (Erreur_conflit ''salle'' ''S1'' 2 (''Lundi'', ''8h'')) =
        (if 2 = count_list (cles_salle (entrees sol_conflit_AB)) (''S1'', (''Lundi'', ''8h''))
            \<and> 1 < (2::nat) then 1 else 0)"
    by blast
  with e c show ?thesis by simp
qed

text \<open>
  The claim as stated fails. Two assignment sets written by hand, as a solver breaking the
  room constraint would answer, are decoded into two solutions: in the first the groups
  6A and 6B share room S1 on Monday 8h, in the second the groups 6B and 6C do. The output
  is the same single line in both cases: it names the room, the count and the slot, and
  cannot name the two groups.
\<close>

theorem verifier_conflit_counterexample:
  "decode (List.member [(''6A'', ''Maths'', 0, ''Dupont'', ''S1'', ''Lundi'', ''8h''),
                        (''6B'', ''Maths'', 1, ''Martin'', ''S1'', ''Lundi'', ''8h''),
                        (''6C'', ''Maths'', 2, ''Dupont'', ''S2'', ''Lundi'', ''9h'')])
          (dict_keys (fst (create_variables cfg_conflit
                             (generate_cours_from_config cfg_conflit)))) = sol_conflit_AB \<and>
   verifier_solution sol_conflit_AB (generate_cours_from_config cfg_conflit) cfg_conflit =
     Inr (False, [Erreur_conflit ''salle'' ''S1'' 2 (''Lundi'', ''8h'')]) \<and>
   decode (List.member [(''6A'', ''Maths'', 0, ''Dupont'', ''S2'', ''Lundi'', ''9h''),
                        (''6B'', ''Maths'', 1, ''Martin'', ''S1'', ''Lundi'', ''8h''),
                        (''6C'', ''Maths'', 2, ''Dupont'', ''S1'', ''Lundi'', ''8h'')])
          (dict_keys (fst (create_variables cfg_conflit
                             (generate_cours_from_config cfg_conflit)))) = sol_conflit_BC \<and>
   verifier_solution sol_conflit_BC (generate_cours_from_config cfg_conflit) cfg_conflit =
     Inr (False, [Erreur_conflit ''salle'' ''S1'' 2 (''Lundi'', ''8h'')])"
  by code_simp


end
